theory Spec2Isabelle
  imports Main "HOL-Library.Sublist"
begin

section \<open>Documents and validation errors\<close>

text \<open>
  A manifest is a parsed JSON document. Python dictionaries are association lists read
  with \<open>map_of\<close>; a missing key is \<open>None\<close> (marshmallow's \<open>missing\<close>), the
  JSON value \<open>null\<close> is \<open>JNull\<close> (Python's \<open>None\<close>). Numbers are integers; floats
  do not occur in a manifest field.
\<close>

datatype json =
    JNull
  | JBool bool
  | JInt int
  | JStr string
  | JList "json list"
  | JDict "(string \<times> json) list"

type_synonym dict = "(string \<times> json) list"

text \<open>
  The \<open>messages\<close> of a \<open>ValidationError\<close>: a list of texts at a leaf, a dictionary
  keyed by field names and by list indices above it.
\<close>

datatype key = Key string | Index nat

datatype msgs = Msgs "string list" | Sub "(key \<times> msgs) list"

type_synonym errors = "(key \<times> msgs) list"

record ValidationError =
  messages :: msgs
  data :: "json option"
  valid_data :: "json option"

definition make_error :: "string \<Rightarrow> ValidationError" where
  "make_error m = \<lparr>messages = Msgs [m], data = None, valid_data = None\<rparr>"

text \<open>Python truthiness, as used by \<open>error.valid_data or missing\<close> and \<open>if exc.data\<close>.\<close>

fun truthy :: "json \<Rightarrow> bool" where
  "truthy JNull = False"
| "truthy (JBool b) = b"
| "truthy (JInt i) = (i \<noteq> 0)"
| "truthy (JStr s) = (s \<noteq> [])"
| "truthy (JList xs) = (xs \<noteq> [])"
| "truthy (JDict d) = (d \<noteq> [])"

section \<open>Validators\<close>

definition digit_char :: "nat \<Rightarrow> char" where
  "digit_char d = char_of (of_char CHR ''0'' + d)"

function string_of_nat :: "nat \<Rightarrow> string" where
  "string_of_nat n =
     (if n < 10 then [digit_char n] else string_of_nat (n div 10) @ [digit_char (n mod 10)])"
  by pat_completeness auto
termination
  by (relation "measure id") auto

declare string_of_nat.simps [simp del]

text \<open>\<open>validate.Length(min, max)\<close>: both bounds given, so the message is the "all" one.\<close>

definition Length :: "nat \<Rightarrow> nat \<Rightarrow> string \<Rightarrow> string list" where
  "Length mn mx s =
     (if length s < mn \<or> mx < length s
      then [''Length must be between '' @ string_of_nat mn @ '' and '' @ string_of_nat mx @ ''.'']
      else [])"

definition OneOf :: "string list \<Rightarrow> string \<Rightarrow> string \<Rightarrow> string list" where
  "OneOf choices error s = (if s \<in> set choices then [] else [error])"

text \<open>
  \<open>validate.Regexp\<close> uses \<open>re.match\<close>; every pattern of the schema is a character class
  repeated once or more between \<open>^\<close> and \<open>$\<close>, and Python's \<open>$\<close> also matches just
  before one trailing newline.
\<close>

definition is_lower :: "char \<Rightarrow> bool" where
  "is_lower c = (of_char CHR ''a'' \<le> (of_char c :: nat) \<and> (of_char c :: nat) \<le> of_char CHR ''z'')"

definition is_upper :: "char \<Rightarrow> bool" where
  "is_upper c = (of_char CHR ''A'' \<le> (of_char c :: nat) \<and> (of_char c :: nat) \<le> of_char CHR ''Z'')"

definition is_digit :: "char \<Rightarrow> bool" where
  "is_digit c = (of_char CHR ''0'' \<le> (of_char c :: nat) \<and> (of_char c :: nat) \<le> of_char CHR ''9'')"

definition strip_newline :: "string \<Rightarrow> string" where
  "strip_newline s = (if s \<noteq> [] \<and> last s = CHR 0x0A then butlast s else s)"

definition match_class_plus :: "(char \<Rightarrow> bool) \<Rightarrow> string \<Rightarrow> bool" where
  "match_class_plus cls s = (let w = strip_newline s in w \<noteq> [] \<and> list_all cls w)"

definition Regexp :: "(string \<Rightarrow> bool) \<Rightarrow> string \<Rightarrow> string \<Rightarrow> string list" where
  "Regexp matches error s = (if matches s then [] else [error])"

text \<open>\<open>^[a-zA-Z\d\-\_/]+$\<close>\<close>

definition re_example_name :: "string \<Rightarrow> bool" where
  "re_example_name =
     match_class_plus (\<lambda>c. is_lower c \<or> is_upper c \<or> is_digit c \<or> c \<in> set ''-_/'')"

text \<open>\<open>^[a-z\d\-\+\. ]+$\<close>\<close>

definition re_keyword :: "string \<Rightarrow> bool" where
  "re_keyword = match_class_plus (\<lambda>c. is_lower c \<or> is_digit c \<or> c \<in> set ''-+. '')"

text \<open>\<open>^([a-z\d\-_]+|\*)$\<close>\<close>

definition re_platform :: "string \<Rightarrow> bool" where
  "re_platform s =
     (match_class_plus (\<lambda>c. is_lower c \<or> is_digit c \<or> c \<in> set ''-_'') s
      \<or> strip_newline s = ''*'')"

text \<open>\<open>^[a-z\d\-_]+$\<close>\<close>

definition re_system :: "string \<Rightarrow> bool" where
  "re_system = match_class_plus (\<lambda>c. is_lower c \<or> is_digit c \<or> c \<in> set ''-_'')"

text \<open>
  What the schema takes from its libraries and cannot be read off \<open>schema.py\<close>: the
  e-mail and URL checks of marshmallow, and whether
  \<open>semantic_version.Version.coerce\<close> returns (rather than raising \<open>ValueError\<close>).
\<close>

record env =
  valid_email :: "string \<Rightarrow> bool"
  valid_url :: "string \<Rightarrow> bool"
  coerce :: "string \<Rightarrow> bool"

text \<open>\<open>Field._validate\<close>: every validator runs, the messages are concatenated.\<close>

definition validate_all :: "(string \<Rightarrow> string list) list \<Rightarrow> string \<Rightarrow> string list" where
  "validate_all validators s = concat (map (\<lambda>v. v s) validators)"

section \<open>Fields (marshmallow 3)\<close>

text \<open>
  A field maps the raw value of its key (\<open>None\<close> when the key is missing) to the
  deserialised value (\<open>None\<close>: nothing to set) or to the \<open>ValidationError\<close> raised.
\<close>

type_synonym field = "json option \<Rightarrow> ValidationError + json option"

text \<open>
  \<open>Field.deserialize\<close>: a missing key is an error only when the field is required;
  \<open>null\<close> is refused (no field of the schema allows it); then the type's own
  \<open>_deserialize\<close> runs, then the validators on its output.
\<close>

definition deserialize ::
  "bool \<Rightarrow> (json \<Rightarrow> ValidationError + json) \<Rightarrow> (json \<Rightarrow> string list) \<Rightarrow> field" where
  "deserialize required deserialize_value validate value =
     (case value of
        None \<Rightarrow> if required then Inl (make_error ''Missing data for required field.'')
                else Inr None
      | Some JNull \<Rightarrow> Inl (make_error ''Field may not be null.'')
      | Some v \<Rightarrow>
          (case deserialize_value v of
             Inl error \<Rightarrow> Inl error
           | Inr output \<Rightarrow>
               (case validate output of
                  [] \<Rightarrow> Inr (Some output)
                | m # ms \<Rightarrow> Inl \<lparr>messages = Msgs (m # ms), data = None, valid_data = None\<rparr>)))"

definition String_deserialize :: "string \<Rightarrow> json \<Rightarrow> ValidationError + json" where
  "String_deserialize invalid v =
     (case v of JStr s \<Rightarrow> Inr (JStr s) | _ \<Rightarrow> Inl (make_error invalid))"

definition on_str :: "(string \<Rightarrow> string list) list \<Rightarrow> json \<Rightarrow> string list" where
  "on_str validators output = (case output of JStr s \<Rightarrow> validate_all validators s | _ \<Rightarrow> [])"

definition Str :: "bool \<Rightarrow> (string \<Rightarrow> string list) list \<Rightarrow> field" where
  "Str required validators =
     deserialize required (String_deserialize ''Not a valid string.'') (on_str validators)"

text \<open>
  \<open>fields.Email\<close> and \<open>fields.Url\<close> are strings with their own "invalid" message
  and their format validator put before the declared ones.
\<close>

definition Email :: "env \<Rightarrow> (string \<Rightarrow> string list) list \<Rightarrow> field" where
  "Email e validators =
     deserialize False (String_deserialize ''Not a valid email address.'')
       (on_str ((\<lambda>s. if valid_email e s then [] else [''Not a valid email address.''])
                # validators))"

definition Url :: "env \<Rightarrow> (string \<Rightarrow> string list) list \<Rightarrow> field" where
  "Url e validators =
     deserialize False (String_deserialize ''Not a valid URL.'')
       (on_str ((\<lambda>s. if valid_url e s then [] else [''Not a valid URL.'']) # validators))"

definition bool_truthy :: "json list" where
  "bool_truthy = map JStr [''t'', ''T'', ''true'', ''True'', ''TRUE'', ''on'', ''On'', ''ON'',
     ''y'', ''Y'', ''yes'', ''Yes'', ''YES'', ''1''] @ [JInt 1, JBool True]"

definition bool_falsy :: "json list" where
  "bool_falsy = map JStr [''f'', ''F'', ''false'', ''False'', ''FALSE'', ''off'', ''Off'', ''OFF'',
     ''n'', ''N'', ''no'', ''No'', ''NO'', ''0''] @ [JInt 0, JBool False]"

definition Boolean_deserialize :: "json \<Rightarrow> ValidationError + json" where
  "Boolean_deserialize v =
     (if v \<in> set bool_truthy then Inr (JBool True)
      else if v \<in> set bool_falsy then Inr (JBool False)
      else Inl (make_error ''Not a valid boolean.''))"

definition Bool :: field where
  "Bool = deserialize False Boolean_deserialize (\<lambda>_. [])"

text \<open>
  \<open>fields.List._deserialize\<close>: each item goes through the inner field; a failing item
  leaves its messages under its index and is not appended (unless its error carries
  \<open>valid_data\<close>); if any item failed, the error raised carries the items that passed.
\<close>

fun List_loop :: "field \<Rightarrow> nat \<Rightarrow> json list \<Rightarrow> json list \<times> errors" where
  "List_loop inner idx [] = ([], [])"
| "List_loop inner idx (each # rest) =
     (let (result, errs) = List_loop inner (Suc idx) rest
      in case inner (Some each) of
           Inr v \<Rightarrow> ((case v of Some x \<Rightarrow> [x] | None \<Rightarrow> []) @ result, errs)
         | Inl error \<Rightarrow>
             ((case valid_data error of Some x \<Rightarrow> [x] | None \<Rightarrow> []) @ result,
              (Index idx, messages error) # errs))"

definition List_deserialize :: "field \<Rightarrow> json \<Rightarrow> ValidationError + json" where
  "List_deserialize inner value =
     (case value of
        JList items \<Rightarrow>
          (let (result, errs) = List_loop inner 0 items
           in if errs \<noteq> []
              then Inl \<lparr>messages = Sub errs, data = None, valid_data = Some (JList result)\<rparr>
              else Inr (JList result))
      | _ \<Rightarrow> Inl (make_error ''Not a valid list.''))"

text \<open>
  \<open>StrictListField._deserialize\<close> (schema.py, lines 37-46): the error of the list field
  is raised again, its \<open>data\<close> (when truthy) without the \<open>None\<close> items.
\<close>

definition StrictListField_deserialize :: "field \<Rightarrow> json \<Rightarrow> ValidationError + json" where
  "StrictListField_deserialize inner value =
     (case List_deserialize inner value of
        Inr result \<Rightarrow> Inr result
      | Inl exc \<Rightarrow>
          (case data exc of
             Some (JList items) \<Rightarrow>
               if items \<noteq> [] then Inl (exc\<lparr>data := Some (JList (filter (\<lambda>item. item \<noteq> JNull) items))\<rparr>)
               else Inl exc
           | _ \<Rightarrow> Inl exc))"

definition StrictListField :: "bool \<Rightarrow> field \<Rightarrow> field" where
  "StrictListField required inner =
     deserialize required (StrictListField_deserialize inner) (\<lambda>_. [])"

section \<open>Schemas (marshmallow 3)\<close>

text \<open>\<open>Schema._call_and_store\<close>: the value to set and the messages to store.\<close>

definition call_and_store :: "ValidationError + json option \<Rightarrow> json option \<times> msgs option" where
  "call_and_store r =
     (case r of
        Inr value \<Rightarrow> (value, None)
      | Inl error \<Rightarrow>
          ((case valid_data error of
              Some v \<Rightarrow> if truthy v then Some v else None
            | None \<Rightarrow> None),
           Some (messages error)))"

fun deserialize_fields :: "(string \<times> field) list \<Rightarrow> dict \<Rightarrow> dict \<times> errors" where
  "deserialize_fields [] d = ([], [])"
| "deserialize_fields ((field_name, field_obj) # fs) d =
     (let (value, err) = call_and_store (field_obj (map_of d field_name));
          (ret, errs) = deserialize_fields fs d
      in ((case value of Some v \<Rightarrow> [(field_name, v)] | None \<Rightarrow> []) @ ret,
          (case err of Some m \<Rightarrow> [(Key field_name, m)] | None \<Rightarrow> []) @ errs))"

datatype unknown = RAISE | EXCLUDE

definition unknown_errors :: "unknown \<Rightarrow> (string \<times> field) list \<Rightarrow> dict \<Rightarrow> errors" where
  "unknown_errors u fs d =
     (if u = EXCLUDE then []
      else map (\<lambda>k. (Key k, Msgs [''Unknown field.'']))
             (filter (\<lambda>k. k \<notin> set (map fst fs)) (remdups (map fst d))))"

text \<open>\<open>Schema._deserialize\<close> for one document and for a collection (\<open>many\<close>).\<close>

definition deserialize_one :: "unknown \<Rightarrow> (string \<times> field) list \<Rightarrow> json \<Rightarrow> dict \<times> errors" where
  "deserialize_one u fs d =
     (case d of
        JDict kvs \<Rightarrow> (let (ret, errs) = deserialize_fields fs kvs in (ret, errs @ unknown_errors u fs kvs))
      | _ \<Rightarrow> ([], [(Key ''_schema'', Msgs [''Invalid input type.''])]))"

fun many_loop :: "unknown \<Rightarrow> (string \<times> field) list \<Rightarrow> nat \<Rightarrow> json list \<Rightarrow> json list \<times> errors" where
  "many_loop u fs idx [] = ([], [])"
| "many_loop u fs idx (d # ds) =
     (let (ret, errs) = deserialize_one u fs d;
          (rets, errss) = many_loop u fs (Suc idx) ds
      in (JDict ret # rets, (if errs \<noteq> [] then [(Index idx, Sub errs)] else []) @ errss))"

definition deserialize_many :: "unknown \<Rightarrow> (string \<times> field) list \<Rightarrow> json \<Rightarrow> json list \<times> errors" where
  "deserialize_many u fs d =
     (case d of
        JList ds \<Rightarrow> many_loop u fs 0 ds
      | _ \<Rightarrow> ([], [(Key ''_schema'', Msgs [''Invalid input type.''])]))"

text \<open>
  \<open>Schema._do_load\<close> of a schema without hooks: on errors, \<open>handle_error\<close> is called
  with the error and the input, and the argument gives the error that leaves the call.
\<close>

definition Schema_load ::
  "bool \<Rightarrow> unknown \<Rightarrow> (bool \<Rightarrow> ValidationError \<Rightarrow> json \<Rightarrow> ValidationError)
   \<Rightarrow> (string \<times> field) list \<Rightarrow> json \<Rightarrow> ValidationError + json" where
  "Schema_load many u handle_error fs d =
     (let (result, errs) =
            (if many then (let (r, es) = deserialize_many u fs d in (JList r, es))
             else (let (r, es) = deserialize_one u fs d in (JDict r, es)))
      in if errs \<noteq> []
         then Inl (handle_error many \<lparr>messages = Sub errs, data = Some d, valid_data = Some result\<rparr> d)
         else Inr result)"

text \<open>The base class: \<open>handle_error\<close> does nothing and \<open>_do_load\<close> raises the error.\<close>

definition Schema_handle_error :: "bool \<Rightarrow> ValidationError \<Rightarrow> json \<Rightarrow> ValidationError" where
  "Schema_handle_error many error d = error"

text \<open>
  \<open>StrictSchema.handle_error\<close> (schema.py, lines 26-34): with \<open>many\<close>, the valid data are
  the input items whose index has no message; otherwise there are none. With \<open>many\<close>
  the input is a list, since \<open>Nested\<close> refuses anything else before loading.
\<close>

definition has_key :: "msgs \<Rightarrow> key \<Rightarrow> bool" where
  "has_key m k = (case m of Sub errs \<Rightarrow> k \<in> set (map fst errs) | Msgs _ \<Rightarrow> False)"

fun skip_broken :: "msgs \<Rightarrow> nat \<Rightarrow> json list \<Rightarrow> json list" where
  "skip_broken m idx [] = []"
| "skip_broken m idx (item # items) =
     (if has_key m (Index idx) then skip_broken m (Suc idx) items
      else item # skip_broken m (Suc idx) items)"

definition StrictSchema_handle_error :: "bool \<Rightarrow> ValidationError \<Rightarrow> json \<Rightarrow> ValidationError" where
  "StrictSchema_handle_error many error d =
     (if many
      then \<lparr>messages = messages error, data = data error,
            valid_data = Some (JList (skip_broken (messages error) 0
                                        (case d of JList items \<Rightarrow> items | _ \<Rightarrow> [])))\<rparr>
      else \<lparr>messages = messages error, data = data error, valid_data = None\<rparr>)"

text \<open>
  \<open>fields.Nested\<close>: a \<open>many\<close> field refuses a value that is not a list; the error of
  the nested load is raised again with its messages and valid data.
\<close>

definition Nested_deserialize ::
  "bool \<Rightarrow> (json \<Rightarrow> ValidationError + json) \<Rightarrow> json \<Rightarrow> ValidationError + json" where
  "Nested_deserialize many load value =
     (if many \<and> (case value of JList _ \<Rightarrow> False | _ \<Rightarrow> True)
      then Inl (make_error ''Invalid type.'')
      else case load value of
             Inl error \<Rightarrow> Inl \<lparr>messages = messages error, data = None, valid_data = valid_data error\<rparr>
           | Inr valid \<Rightarrow> Inr valid)"

definition Nested :: "bool \<Rightarrow> (json \<Rightarrow> ValidationError + json) \<Rightarrow> field" where
  "Nested many load = deserialize False (Nested_deserialize many load) (\<lambda>_. [])"

section \<open>The schemas of schema.py\<close>

definition AuthorSchema_fields :: "env \<Rightarrow> (string \<times> field) list" where
  "AuthorSchema_fields e =
     [(''name'', Str True [Length 1 50]),
      (''email'', Email e [Length 1 50]),
      (''maintainer'', Bool),
      (''url'', Url e [Length 1 255])]"

definition AuthorSchema_load :: "env \<Rightarrow> bool \<Rightarrow> json \<Rightarrow> ValidationError + json" where
  "AuthorSchema_load e many = Schema_load many RAISE StrictSchema_handle_error (AuthorSchema_fields e)"

definition RepositorySchema_fields :: "(string \<times> field) list" where
  "RepositorySchema_fields =
     [(''type'', Str True [OneOf [''git'', ''hg'', ''svn'']
                            ''Invalid repository type, please use one of [git, hg, svn]'']),
      (''url'', Str True [Length 1 255]),
      (''branch'', Str False [Length 1 50])]"

definition RepositorySchema_load :: "bool \<Rightarrow> json \<Rightarrow> ValidationError + json" where
  "RepositorySchema_load many = Schema_load many RAISE StrictSchema_handle_error RepositorySchema_fields"

definition ExportSchema_fields :: "(string \<times> field) list" where
  "ExportSchema_fields =
     [(''include'', StrictListField False (Str False [])),
      (''exclude'', StrictListField False (Str False []))]"

definition ExportSchema_load :: "bool \<Rightarrow> json \<Rightarrow> ValidationError + json" where
  "ExportSchema_load many = Schema_load many RAISE Schema_handle_error ExportSchema_fields"

definition ExampleSchema_fields :: "(string \<times> field) list" where
  "ExampleSchema_fields =
     [(''name'', Str True [Length 1 100,
                           Regexp re_example_name ''Only [a-zA-Z0-9-_/] chars are allowed'']),
      (''base'', Str True []),
      (''files'', StrictListField True (Str False []))]"

definition ExampleSchema_load :: "bool \<Rightarrow> json \<Rightarrow> ValidationError + json" where
  "ExampleSchema_load many = Schema_load many RAISE StrictSchema_handle_error ExampleSchema_fields"

definition ManifestSchema_fields :: "env \<Rightarrow> (string \<times> field) list" where
  "ManifestSchema_fields e =
     [(''name'', Str True [Length 1 100]),
      (''version'', Str True [Length 1 50]),
      (''authors'', Nested True (AuthorSchema_load e True)),
      (''description'', Str False [Length 1 1000]),
      (''homepage'', Url e [Length 1 255]),
      (''license'', Str False [Length 1 255]),
      (''repository'', Nested False (RepositorySchema_load False)),
      (''export'', Nested False (ExportSchema_load False)),
      (''examples'', Nested True (ExampleSchema_load True)),
      (''keywords'', StrictListField False
         (Str False [Length 1 50, Regexp re_keyword ''Only [a-z0-9-+. ] chars are allowed''])),
      (''platforms'', StrictListField False
         (Str False [Length 1 50, Regexp re_platform ''Only [a-z0-9-_*] chars are allowed''])),
      (''frameworks'', StrictListField False
         (Str False [Length 1 50, Regexp re_platform ''Only [a-z0-9-_*] chars are allowed''])),
      (''title'', Str False [Length 1 100]),
      (''system'', StrictListField False
         (Str False [Length 1 50, Regexp re_system ''Only [a-z0-9-_] chars are allowed'']))]"

subsection \<open>The validators of \<open>version\<close> and \<open>license\<close>\<close>

text \<open>
  \<open>validate_version\<close> (lines 176-185): \<open>None\<close> when it returns, the message of the
  \<open>ValidationError\<close> otherwise. The failed \<open>assert\<close> and the \<open>ValueError\<close> of
  \<open>coerce\<close> are both caught and turned into the same error.
\<close>

definition validate_version :: "env \<Rightarrow> string \<Rightarrow> string option" where
  "validate_version e value =
     (if CHR ''.'' \<notin> set value then Some ''Invalid semantic versioning format, see https://semver.org/''
      else if \<not> coerce e value then Some ''Invalid semantic versioning format, see https://semver.org/''
      else None)"

text \<open>
  The registry document, as far as it is read: a JSON object whose member \<open>licenses\<close>
  is an array of objects. \<open>RequestException\<close> is what \<open>requests\<close> raises when the
  download fails.
\<close>

type_synonym spdx = "(string \<times> dict list) list"

datatype RequestException = RequestException

fun find_license :: "dict list \<Rightarrow> string \<Rightarrow> bool" where
  "find_license [] value = False"
| "find_license (item # items) value =
     (if map_of item ''licenseId'' = Some (JStr value) then True else find_license items value)"

text \<open>
  \<open>validate_license\<close> (lines 187-199); the first argument is what the call
  \<open>self.load_spdx_licenses()\<close> gives.
\<close>

definition validate_license :: "RequestException + spdx \<Rightarrow> string \<Rightarrow> string option" where
  "validate_license loaded value =
     (case loaded of
        Inl _ \<Rightarrow> Some ''Could not load SPDX licenses for validation''
      | Inr spdx \<Rightarrow>
          if find_license (case map_of spdx ''licenses'' of Some items \<Rightarrow> items | None \<Rightarrow> []) value
          then None
          else Some (''Invalid SPDX license identifier. See valid identifiers at '' @
                     ''https://spdx.org/licenses/''))"

text \<open>
  \<open>Schema._invoke_field_validators\<close> for one \<open>@validates\<close> method: it runs only when the
  field was deserialised; on an error the messages are stored under the field and the
  field is taken out of the result. Both fields are strings, and a field that is in the
  result has no message yet, so the store gets a new key.
\<close>

definition invoke_field_validator ::
  "string \<Rightarrow> (string \<Rightarrow> string option) \<Rightarrow> dict \<times> errors \<Rightarrow> dict \<times> errors" where
  "invoke_field_validator field_name validator r =
     (case r of (result, errs) \<Rightarrow>
        (case map_of result field_name of
           Some (JStr value) \<Rightarrow>
             (case validator value of
                None \<Rightarrow> (result, errs)
              | Some m \<Rightarrow> (filter (\<lambda>kv. fst kv \<noteq> field_name) result,
                           errs @ [(Key field_name, Msgs [m])]))
         | _ \<Rightarrow> (result, errs)))"

subsection \<open>ManifestSchema\<close>

text \<open>
  What a call of \<open>load\<close> does: return the data, raise marshmallow's \<open>ValidationError\<close>,
  or raise \<open>ManifestValidationError(error, data)\<close>, which is not a \<open>ValidationError\<close>.
\<close>

datatype outcome =
    Returns json
  | Raises_ValidationError ValidationError
  | Raises_ManifestValidationError ValidationError json

text \<open>
  \<open>ManifestSchema.handle_error\<close> (lines 172-174): raises in strict mode, returns
  otherwise.
\<close>

definition ManifestSchema_handle_error :: "bool \<Rightarrow> ValidationError \<Rightarrow> json \<Rightarrow> outcome option" where
  "ManifestSchema_handle_error strict error d =
     (if strict then Some (Raises_ManifestValidationError error d) else None)"

text \<open>
  \<open>ManifestSchema.load\<close>, first half of \<open>_do_load\<close>: unknown keys are excluded
  (\<open>Meta.unknown = EXCLUDE\<close>), all fields are deserialised, then both \<open>@validates\<close>
  methods run.
\<close>

definition deserialize_and_validate ::
  "env \<Rightarrow> RequestException + spdx \<Rightarrow> json \<Rightarrow> dict \<times> errors" where
  "deserialize_and_validate e loaded manifest =
     invoke_field_validator ''version'' (validate_version e)
       (invoke_field_validator ''license'' (validate_license loaded)
          (deserialize_one EXCLUDE (ManifestSchema_fields e) manifest))"

text \<open>
  Second half: only now the errors are looked at; \<open>handle_error\<close> is called once, with
  all of them, and if it returns the \<open>ValidationError\<close> is raised.
\<close>

definition ManifestSchema_load :: "bool \<Rightarrow> env \<Rightarrow> RequestException + spdx \<Rightarrow> json \<Rightarrow> outcome" where
  "ManifestSchema_load strict e loaded manifest =
     (let (result, errs) = deserialize_and_validate e loaded manifest
      in if errs \<noteq> []
         then (let exc = \<lparr>messages = Sub errs, data = Some manifest, valid_data = Some (JDict result)\<rparr>
               in case ManifestSchema_handle_error strict exc manifest of
                    Some raised \<Rightarrow> raised
                  | None \<Rightarrow> Raises_ValidationError exc)
         else Returns (JDict result))"

datatype exn = ManifestValidationError ValidationError json

text \<open>
  \<open>load_manifest\<close> (lines 161-170), marshmallow 3 branch: only \<open>ValidationError\<close> is
  caught.
\<close>

definition load_manifest ::
  "bool \<Rightarrow> env \<Rightarrow> RequestException + spdx \<Rightarrow> json \<Rightarrow> exn + (json option \<times> msgs option)" where
  "load_manifest strict e loaded manifest =
     (case ManifestSchema_load strict e loaded manifest of
        Returns d \<Rightarrow> Inr (Some d, None)
      | Raises_ValidationError exc \<Rightarrow> Inr (valid_data exc, Some (messages exc))
      | Raises_ManifestValidationError error d \<Rightarrow> Inl (ManifestValidationError error d))"

text \<open>The messages stored under one key of an error dictionary.\<close>

definition lookup :: "msgs \<Rightarrow> key \<Rightarrow> msgs option" where
  "lookup m k = (case m of Sub errs \<Rightarrow> map_of errs k | Msgs _ \<Rightarrow> None)"

subsection \<open>The cached licence registry\<close>

text \<open>
  Modelled from the spec: the decorator \<open>memoized(expire="1h")\<close> of \<open>platformio.util\<close>,
  which wraps \<open>load_spdx_licenses\<close> (lines 201-209) and is not part of the sources at
  hand. The spec's cache keeps the value with its fetch timestamp; a lookup does not
  fetch while \<open>now - fetch_timestamp < TTL\<close> and fetches otherwise, before answering.
  A failed fetch answers with the failure and leaves the cache as it was. Time is in
  seconds; \<open>requests\<close> counts the downloads issued so far.
\<close>

record memo =
  snapshot :: "(int \<times> spdx) option"
  requests :: nat

definition TTL :: int where
  "TTL = 3600"

definition refetch :: "int \<Rightarrow> RequestException + spdx \<Rightarrow> memo \<Rightarrow> (RequestException + spdx) \<times> memo" where
  "refetch now response c =
     (case response of
        Inl err \<Rightarrow> (Inl err, c\<lparr>requests := Suc (requests c)\<rparr>)
      | Inr doc \<Rightarrow> (Inr doc, \<lparr>snapshot = Some (now, doc), requests = Suc (requests c)\<rparr>))"

text \<open>
  \<open>load_spdx_licenses\<close> at time \<open>now\<close>; \<open>response\<close> is what the body (download,
  \<open>raise_for_status\<close>, \<open>json\<close>) gives if it runs.
\<close>

definition load_spdx_licenses ::
  "int \<Rightarrow> RequestException + spdx \<Rightarrow> memo \<Rightarrow> (RequestException + spdx) \<times> memo" where
  "load_spdx_licenses now response c =
     (case snapshot c of
        Some (fetch_timestamp, doc) \<Rightarrow>
          if now - fetch_timestamp < TTL then (Inr doc, c) else refetch now response c
      | None \<Rightarrow> refetch now response c)"

subsection \<open>A sample environment\<close>

text \<open>
  An instance of the library checks for evaluating the schema at concrete manifests: an
  e-mail address has an \<open>@\<close>, a URL has a \<open>:\<close>, and a version string is coerced when
  it starts with a numerical component.
\<close>

definition sample_env :: env where
  "sample_env =
     \<lparr>valid_email = (\<lambda>s. CHR ''@'' \<in> set s),
      valid_url = (\<lambda>s. CHR '':'' \<in> set s),
      coerce = (\<lambda>s. s \<noteq> [] \<and> is_digit (hd s))\<rparr>"

definition sample_spdx :: spdx where
  "sample_spdx = [(''licenses'', [[(''licenseId'', JStr ''MIT'')], [(''licenseId'', JStr ''Apache-2.0'')]])]"

section \<open>Evaluation at sample manifests\<close>

lemma load_sample_invalid_best_effort:
  "load_manifest False sample_env (Inr sample_spdx)
     (JDict [(''name'', JStr ''x''), (''version'', JStr ''1''), (''license'', JStr ''MIT'')]) =
   Inr (Some (JDict [(''name'', JStr ''x''), (''license'', JStr ''MIT'')]),
        Some (Sub [(Key ''version'',
                    Msgs [''Invalid semantic versioning format, see https://semver.org/''])]))"
  by code_simp

lemma load_sample_violations_best_effort:
  "load_manifest False sample_env (Inl RequestException)
     (JDict [(''version'', JStr ''abc''), (''license'', JStr ''MIT'')]) =
   Inr (Some (JDict []),
        Some (Sub [(Key ''name'', Msgs [''Missing data for required field.'']),
                   (Key ''license'', Msgs [''Could not load SPDX licenses for validation'']),
                   (Key ''version'',
                    Msgs [''Invalid semantic versioning format, see https://semver.org/''])]))"
  by code_simp


lemma sample_fields_accept:
  "\<forall>(k, f) \<in> set (ManifestSchema_fields sample_env).
     \<not> isl (f (map_of [(''name'', JStr ''x''), (''version'', JStr ''1.2''),
                        (''license'', JStr ''MIT'')] k))"
  by code_simp

lemma sample_fields_value:
  "fst (deserialize_fields (ManifestSchema_fields sample_env)
     [(''name'', JStr ''x''), (''version'', JStr ''1.2''), (''license'', JStr ''MIT'')]) =
   [(''name'', JStr ''x''), (''version'', JStr ''1.2''), (''license'', JStr ''MIT'')]"
  by code_simp

lemma sample_validators_accept:
  "validate_version sample_env ''1.2'' = None"
  "validate_license (Inr sample_spdx) ''MIT'' = None"
  by code_simp+

section \<open>Lookups in the result of a load\<close>

lemma map_of_filter_key:
  "map_of (filter (\<lambda>kv. P (fst kv)) xs) k = (if P k then map_of xs k else None)"
  by (induction xs) auto

lemma call_and_store_Inr [simp]: "call_and_store (Inr v) = (v, None)"
  by (simp add: call_and_store_def)

lemma deserialize_fields_value:
  "distinct (map fst fs) \<Longrightarrow>
   map_of (fst (deserialize_fields fs d)) k =
     (case map_of fs k of None \<Rightarrow> None | Some f \<Rightarrow> fst (call_and_store (f (map_of d k))))"
proof (induction fs)
  case Nil
  then show ?case by simp
next
  case (Cons a fs)
  obtain n f where a: "a = (n, f)" by (cases a)
  from Cons.prems a have none: "map_of fs n = None"
    by (simp add: map_of_eq_None_iff)
  from Cons have IH: "map_of (fst (deserialize_fields fs d)) k =
     (case map_of fs k of None \<Rightarrow> None | Some f \<Rightarrow> fst (call_and_store (f (map_of d k))))"
    by simp
  show ?case
  proof (cases "k = n")
    case True
    with IH none a show ?thesis
      by (simp add: Let_def case_prod_beta split: option.split)
  next
    case False
    with IH a show ?thesis
      by (simp add: Let_def case_prod_beta split: option.split)
  qed
qed

lemma deserialize_fields_error:
  "distinct (map fst fs) \<Longrightarrow>
   map_of (snd (deserialize_fields fs d)) (Key k) =
     (case map_of fs k of None \<Rightarrow> None | Some f \<Rightarrow> snd (call_and_store (f (map_of d k))))"
proof (induction fs)
  case Nil
  then show ?case by simp
next
  case (Cons a fs)
  obtain n f where a: "a = (n, f)" by (cases a)
  from Cons.prems a have none: "map_of fs n = None"
    by (simp add: map_of_eq_None_iff)
  from Cons have IH: "map_of (snd (deserialize_fields fs d)) (Key k) =
     (case map_of fs k of None \<Rightarrow> None | Some f \<Rightarrow> snd (call_and_store (f (map_of d k))))"
    by simp
  show ?case
  proof (cases "k = n")
    case True
    with IH none a show ?thesis
      by (simp add: Let_def case_prod_beta split: option.split)
  next
    case False
    with IH a show ?thesis
      by (simp add: Let_def case_prod_beta split: option.split)
  qed
qed




lemma map_of_append_key:
  "map_of (xs @ ys) k = (case map_of xs k of Some v \<Rightarrow> Some v | None \<Rightarrow> map_of ys k)"
  by (simp add: map_add_def split: option.split)

lemma invoke_field_validator_value:
  "map_of (fst (invoke_field_validator n v r)) k =
     (if k = n \<and> (\<exists>s m. map_of (fst r) n = Some (JStr s) \<and> v s = Some m) then None
      else map_of (fst r) k)"
  by (cases r)
     (auto simp: invoke_field_validator_def map_of_filter_key [of "\<lambda>x. x \<noteq> n"]
           split: option.splits json.splits)

lemma invoke_field_validator_errors:
  "snd (invoke_field_validator n v r) =
     snd r @ (case map_of (fst r) n of
                Some (JStr s) \<Rightarrow> (case v s of Some m \<Rightarrow> [(Key n, Msgs [m])] | None \<Rightarrow> [])
              | _ \<Rightarrow> [])"
  by (cases r) (auto simp: invoke_field_validator_def split: option.splits json.splits)

lemma invoke_field_validator_error_other:
  "k \<noteq> Key n \<Longrightarrow>
   map_of (snd (invoke_field_validator n v r)) k = map_of (snd r) k"
  by (auto simp: invoke_field_validator_errors map_add_def
           split: option.splits json.splits)

lemma invoke_field_validator_error_kept:
  "map_of (snd r) k = Some m \<Longrightarrow>
   map_of (snd (invoke_field_validator n v r)) k = Some m"
  by (auto simp: invoke_field_validator_errors map_add_def
           split: option.splits json.splits)

lemma ManifestSchema_fields_distinct: "distinct (map fst (ManifestSchema_fields e))"
  by (simp add: ManifestSchema_fields_def)

lemma deserialize_one_dict:
  "deserialize_one EXCLUDE fs (JDict kvs) = deserialize_fields fs kvs"
  by (simp add: deserialize_one_def unknown_errors_def case_prod_beta Let_def)

lemma load_manifest_errors:
  assumes "deserialize_and_validate e loaded manifest = (valid, errs)" and "errs \<noteq> []"
  shows "load_manifest False e loaded manifest = Inr (Some (JDict valid), Some (Sub errs))"
    and "load_manifest True e loaded manifest =
           Inl (ManifestValidationError
                 \<lparr>messages = Sub errs, data = Some manifest, valid_data = Some (JDict valid)\<rparr>
                 manifest)"
  using assms
  by (simp_all add: load_manifest_def ManifestSchema_load_def ManifestSchema_handle_error_def)

lemma validated_value_kept:
  "map_of (fst (deserialize_and_validate e loaded (JDict kvs))) k = Some v \<Longrightarrow>
   map_of (fst (deserialize_fields (ManifestSchema_fields e) kvs)) k = Some v"
  by (simp add: deserialize_and_validate_def deserialize_one_dict invoke_field_validator_value
           split: if_splits)

lemma validated_value_None:
  "map_of (fst (deserialize_fields (ManifestSchema_fields e) kvs)) k = None \<Longrightarrow>
   map_of (fst (deserialize_and_validate e loaded (JDict kvs))) k = None"
  by (simp add: deserialize_and_validate_def deserialize_one_dict invoke_field_validator_value)

lemma validated_value_other:
  "k \<noteq> ''version'' \<Longrightarrow> k \<noteq> ''license'' \<Longrightarrow>
   map_of (fst (deserialize_and_validate e loaded (JDict kvs))) k =
   map_of (fst (deserialize_fields (ManifestSchema_fields e) kvs)) k"
  by (simp add: deserialize_and_validate_def deserialize_one_dict invoke_field_validator_value)

lemma validated_error_kept:
  "map_of (snd (deserialize_fields (ManifestSchema_fields e) kvs)) k = Some m \<Longrightarrow>
   map_of (snd (deserialize_and_validate e loaded (JDict kvs))) k = Some m"
  by (simp add: deserialize_and_validate_def deserialize_one_dict invoke_field_validator_error_kept)

lemma required_missing:
  "deserialize True dv val None = Inl (make_error ''Missing data for required field.'')"
  by (simp add: deserialize_def)

lemma call_and_store_make_error [simp]:
  "call_and_store (Inl (make_error m)) = (None, Some (Msgs [m]))"
  by (simp add: call_and_store_def make_error_def)

lemma required_fields:
  "map_of (ManifestSchema_fields e) ''name'' = Some (Str True [Length 1 100])"
  "map_of (ManifestSchema_fields e) ''version'' = Some (Str True [Length 1 50])"
  by (simp_all add: ManifestSchema_fields_def)


lemma license_field:
  "map_of (ManifestSchema_fields e) ''license'' = Some (Str False [Length 1 255])"
  by (simp add: ManifestSchema_fields_def)

lemma Str_accepts:
  "Str required [Length mn mx] (Some (JStr s)) =
     (if mn \<le> length s \<and> length s \<le> mx then Inr (Some (JStr s))
      else Inl \<lparr>messages = Msgs (Length mn mx s), data = None, valid_data = None\<rparr>)"
  by (auto simp: Str_def deserialize_def String_deserialize_def on_str_def validate_all_def
      Length_def)

lemma license_field_message:
  "snd (call_and_store (Str False [Length 1 255] x)) \<noteq>
     Some (Msgs [''Could not load SPDX licenses for validation''])"
proof (cases x)
  case None
  then show ?thesis by (simp add: Str_def deserialize_def)
next
  case (Some v)
  then show ?thesis
    by (cases v)
       (simp_all add: Str_def deserialize_def String_deserialize_def on_str_def validate_all_def
          Length_def call_and_store_def make_error_def)
qed

lemma load_manifest_best_effort:
  "load_manifest False e loaded manifest =
     Inr (Some (JDict (fst (deserialize_and_validate e loaded manifest))),
          if snd (deserialize_and_validate e loaded manifest) = [] then None
          else Some (Sub (snd (deserialize_and_validate e loaded manifest))))"
  by (simp add: load_manifest_def ManifestSchema_load_def ManifestSchema_handle_error_def
      case_prod_beta)

lemma load_manifest_strict:
  "load_manifest True e loaded manifest =
     (if snd (deserialize_and_validate e loaded manifest) = []
      then Inr (Some (JDict (fst (deserialize_and_validate e loaded manifest))), None)
      else Inl (ManifestValidationError
                 \<lparr>messages = Sub (snd (deserialize_and_validate e loaded manifest)),
                  data = Some manifest,
                  valid_data = Some (JDict (fst (deserialize_and_validate e loaded manifest)))\<rparr>
                 manifest))"
  by (simp add: load_manifest_def ManifestSchema_load_def ManifestSchema_handle_error_def
      case_prod_beta)

lemma call_and_store_no_error: "snd (call_and_store r) = None \<longleftrightarrow> \<not> isl r"
  by (cases r) (simp_all add: call_and_store_def)

lemma deserialize_fields_no_errors:
  "snd (deserialize_fields fs d) = [] \<longleftrightarrow> (\<forall>(k, f) \<in> set fs. \<not> isl (f (map_of d k)))"
proof (induction fs)
  case Nil
  then show ?case by simp
next
  case (Cons a fs)
  obtain n f where a: "a = (n, f)" by (cases a)
  show ?case
    using Cons call_and_store_no_error [of "f (map_of d n)"]
    by (auto simp: a Let_def case_prod_beta split: option.splits)
qed

lemma invoke_field_validator_no_errors:
  "snd (invoke_field_validator n v r) = [] \<longleftrightarrow>
     snd r = [] \<and> (\<forall>s. map_of (fst r) n = Some (JStr s) \<longrightarrow> v s = None)"
  by (auto simp: invoke_field_validator_errors split: option.splits json.splits)

lemma invoke_field_validator_unchanged:
  "snd (invoke_field_validator n v r) = [] \<Longrightarrow> invoke_field_validator n v r = r"
  by (cases r) (auto simp: invoke_field_validator_def split: option.splits json.splits)

lemma string_field_accepts:
  "\<not> isl (deserialize req (String_deserialize msg) val x) \<Longrightarrow>
   fst (call_and_store (deserialize req (String_deserialize msg) val x)) = x"
  by (cases x; cases "the x")
     (auto simp: deserialize_def String_deserialize_def call_and_store_def make_error_def
        split: list.splits if_splits)

lemma Str_accepted: "\<not> isl (Str req vs x) \<Longrightarrow> fst (call_and_store (Str req vs x)) = x"
  unfolding Str_def by (rule string_field_accepts)

lemma validated_no_errors:
  "snd (deserialize_and_validate e loaded (JDict kvs)) = [] \<longleftrightarrow>
     (\<forall>(k, f) \<in> set (ManifestSchema_fields e). \<not> isl (f (map_of kvs k)))
     \<and> (\<forall>s. map_of kvs ''version'' = Some (JStr s) \<longrightarrow> validate_version e s = None)
     \<and> (\<forall>s. map_of kvs ''license'' = Some (JStr s) \<longrightarrow> validate_license loaded s = None)"
proof (cases "\<forall>(k, f) \<in> set (ManifestSchema_fields e). \<not> isl (f (map_of kvs k))")
  case False
  then have "snd (deserialize_fields (ManifestSchema_fields e) kvs) \<noteq> []"
    by (simp add: deserialize_fields_no_errors)
  then have "snd (deserialize_and_validate e loaded (JDict kvs)) \<noteq> []"
    by (simp add: deserialize_and_validate_def deserialize_one_dict invoke_field_validator_errors)
  with False show ?thesis by blast
next
  case True
  let ?des = "deserialize_fields (ManifestSchema_fields e) kvs"
  from True have ne: "snd ?des = []"
    by (simp add: deserialize_fields_no_errors)
  from True map_of_SomeD [OF required_fields(2) [of e]]
  have "\<not> isl (Str True [Length 1 50] (map_of kvs ''version''))" by blast
  then have ver: "map_of (fst ?des) ''version'' = map_of kvs ''version''"
    by (simp add: deserialize_fields_value ManifestSchema_fields_distinct required_fields
        Str_accepted)
  from True map_of_SomeD [OF license_field [of e]]
  have "\<not> isl (Str False [Length 1 255] (map_of kvs ''license''))" by blast
  then have lic: "map_of (fst ?des) ''license'' = map_of kvs ''license''"
    by (simp add: deserialize_fields_value ManifestSchema_fields_distinct license_field
        Str_accepted)
  have ver': "map_of (fst (invoke_field_validator ''license'' (validate_license loaded) ?des))
                ''version'' = map_of kvs ''version''"
    using ver by (simp add: invoke_field_validator_value)
  show ?thesis
    using True ne ver' lic
    by (auto simp: deserialize_and_validate_def deserialize_one_dict
        invoke_field_validator_no_errors)
qed

lemma validated_not_object:
  "(\<forall>kvs. manifest \<noteq> JDict kvs) \<Longrightarrow>
   deserialize_and_validate e loaded manifest =
     ([], [(Key ''_schema'', Msgs [''Invalid input type.''])])"
  by (cases manifest)
     (simp_all add: deserialize_and_validate_def deserialize_one_def invoke_field_validator_def)

lemma validated_accepted_value:
  "snd (deserialize_and_validate e loaded (JDict kvs)) = [] \<Longrightarrow>
   fst (deserialize_and_validate e loaded (JDict kvs)) =
     fst (deserialize_fields (ManifestSchema_fields e) kvs)"
proof -
  let ?des = "deserialize_fields (ManifestSchema_fields e) kvs"
  let ?r1 = "invoke_field_validator ''license'' (validate_license loaded) ?des"
  assume a: "snd (deserialize_and_validate e loaded (JDict kvs)) = []"
  then have 2: "snd (invoke_field_validator ''version'' (validate_version e) ?r1) = []"
    by (simp add: deserialize_and_validate_def deserialize_one_dict)
  then have "snd ?r1 = []" by (simp add: invoke_field_validator_no_errors)
  from invoke_field_validator_unchanged [OF 2] invoke_field_validator_unchanged [OF this]
  show ?thesis by (simp add: deserialize_and_validate_def deserialize_one_dict)
qed

lemma field_message_reported:
  assumes "(k, f) \<in> set (ManifestSchema_fields e)"
    and "snd (call_and_store (f (map_of kvs k))) = Some m"
  shows "map_of (snd (deserialize_and_validate e loaded (JDict kvs))) (Key k) = Some m"
proof -
  from assms(1) have "map_of (ManifestSchema_fields e) k = Some f"
    by (simp add: ManifestSchema_fields_distinct)
  with assms(2)
  have "map_of (snd (deserialize_fields (ManifestSchema_fields e) kvs)) (Key k) = Some m"
    by (simp add: deserialize_fields_error ManifestSchema_fields_distinct)
  then show ?thesis by (rule validated_error_kept)
qed

lemma version_message_reported:
  assumes "map_of kvs ''version'' = Some (JStr s)" and "1 \<le> length s" and "length s \<le> 50"
    and "validate_version e s = Some m"
  shows "map_of (snd (deserialize_and_validate e loaded (JDict kvs))) (Key ''version'')
           = Some (Msgs [m])"
proof -
  let ?des = "deserialize_fields (ManifestSchema_fields e) kvs"
  let ?r1 = "invoke_field_validator ''license'' (validate_license loaded) ?des"
  have dv: "map_of (fst ?des) ''version'' = Some (JStr s)"
    using assms by (simp add: deserialize_fields_value ManifestSchema_fields_distinct
        required_fields Str_accepts)
  have de: "map_of (snd ?des) (Key ''version'') = None"
    using assms by (simp add: deserialize_fields_error ManifestSchema_fields_distinct
        required_fields Str_accepts)
  have r1v: "map_of (fst ?r1) ''version'' = Some (JStr s)"
    using dv by (simp add: invoke_field_validator_value)
  have r1e: "map_of (snd ?r1) (Key ''version'') = None"
    using de by (simp add: invoke_field_validator_error_other)
  have "snd (invoke_field_validator ''version'' (validate_version e) ?r1) =
          snd ?r1 @ [(Key ''version'', Msgs [m])]"
    using r1v assms(4) by (simp only: invoke_field_validator_errors option.case json.case)
  then have "map_of (snd (invoke_field_validator ''version'' (validate_version e) ?r1))
               (Key ''version'') = Some (Msgs [m])"
    using r1e by (simp only: map_of_append_key option.case) simp
  then show ?thesis
    by (simp only: deserialize_and_validate_def deserialize_one_dict)
qed

lemma license_message_reported:
  assumes "map_of kvs ''license'' = Some (JStr s)" and "1 \<le> length s" and "length s \<le> 255"
    and "validate_license loaded s = Some m"
  shows "map_of (snd (deserialize_and_validate e loaded (JDict kvs))) (Key ''license'')
           = Some (Msgs [m])"
proof -
  let ?des = "deserialize_fields (ManifestSchema_fields e) kvs"
  let ?r1 = "invoke_field_validator ''license'' (validate_license loaded) ?des"
  have dv: "map_of (fst ?des) ''license'' = Some (JStr s)"
    using assms by (simp add: deserialize_fields_value ManifestSchema_fields_distinct
        license_field Str_accepts)
  have de: "map_of (snd ?des) (Key ''license'') = None"
    using assms by (simp add: deserialize_fields_error ManifestSchema_fields_distinct
        license_field Str_accepts)
  have r1e: "map_of (snd ?r1) (Key ''license'') = Some (Msgs [m])"
    using dv de assms(4) by (simp add: invoke_field_validator_errors map_add_def)
  from invoke_field_validator_error_kept [OF r1e]
  show ?thesis
    by (simp add: deserialize_and_validate_def deserialize_one_dict)
qed












section \<open>Nested sequences\<close>

lemma many_loop_values:
  "fst (many_loop u fs idx ds) = map (\<lambda>d. JDict (fst (deserialize_one u fs d))) ds"
  by (induction ds arbitrary: idx) (simp_all add: case_prod_beta Let_def)

lemma many_loop_no_errors:
  "snd (many_loop u fs idx ds) = [] \<longleftrightarrow> (\<forall>d \<in> set ds. snd (deserialize_one u fs d) = [])"
  by (induction ds arbitrary: idx) (auto simp: case_prod_beta Let_def)

lemma many_loop_error:
  "map_of (snd (many_loop u fs idx ds)) (Index i) =
     (if idx \<le> i \<and> i < idx + length ds \<and> snd (deserialize_one u fs (ds ! (i - idx))) \<noteq> []
      then Some (Sub (snd (deserialize_one u fs (ds ! (i - idx))))) else None)"
proof (induction ds arbitrary: idx)
  case Nil
  then show ?case by simp
next
  case (Cons d ds)
  show ?case
  proof (cases "i = idx")
    case True
    then show ?thesis
      using Cons [of "Suc idx"] by (simp add: case_prod_beta Let_def)
  next
    case False
    have "(d # ds) ! (i - idx) = ds ! (i - Suc idx)" if "idx \<le> i"
    proof -
      from that False have "i - idx = Suc (i - Suc idx)" by arith
      then show ?thesis by (simp only: nth_Cons_Suc)
    qed
    with False show ?thesis
      using Cons [of "Suc idx"] by (auto simp: case_prod_beta Let_def)
  qed
qed

lemma skip_broken_filter:
  "(\<And>i. i < length ds \<Longrightarrow> has_key m (Index (idx + i)) \<longleftrightarrow> \<not> P (ds ! i)) \<Longrightarrow>
   skip_broken m idx ds = filter P ds"
proof (induction ds arbitrary: idx)
  case Nil
  then show ?case by simp
next
  case (Cons d ds)
  from Cons.prems [of 0] have hd: "has_key m (Index idx) \<longleftrightarrow> \<not> P d" by simp
  have "skip_broken m (Suc idx) ds = filter P ds"
  proof (rule Cons.IH)
    fix i assume "i < length ds"
    with Cons.prems [of "Suc i"] show "has_key m (Index (Suc idx + i)) \<longleftrightarrow> \<not> P (ds ! i)"
      by simp
  qed
  with hd show ?case by simp
qed

lemma has_key_map_of: "has_key (Sub errs) k \<longleftrightarrow> map_of errs k \<noteq> None"
  by (simp add: has_key_def map_of_eq_None_iff)

lemma skip_broken_many_loop:
  "skip_broken (Sub (snd (many_loop u fs 0 ds))) 0 ds =
     filter (\<lambda>d. snd (deserialize_one u fs d) = []) ds"
  by (rule skip_broken_filter) (simp add: has_key_map_of many_loop_error)

lemma StrictSchema_load_many:
  "Schema_load True u StrictSchema_handle_error fs (JList ds) =
     (if \<forall>d \<in> set ds. snd (deserialize_one u fs d) = []
      then Inr (JList (map (\<lambda>d. JDict (fst (deserialize_one u fs d))) ds))
      else Inl \<lparr>messages = Sub (snd (many_loop u fs 0 ds)), data = Some (JList ds),
                valid_data = Some (JList (filter (\<lambda>d. snd (deserialize_one u fs d) = []) ds))\<rparr>)"
proof -
  obtain r es where m: "many_loop u fs 0 ds = (r, es)" by (cases "many_loop u fs 0 ds")
  from many_loop_values [of u fs 0 ds] m
  have r: "r = map (\<lambda>d. JDict (fst (deserialize_one u fs d))) ds" by simp
  from many_loop_no_errors [of u fs 0 ds] m
  have es: "es = [] \<longleftrightarrow> (\<forall>d \<in> set ds. snd (deserialize_one u fs d) = [])" by simp
  from skip_broken_many_loop [of u fs ds] m
  have sk: "skip_broken (Sub es) 0 ds = filter (\<lambda>d. snd (deserialize_one u fs d) = []) ds"
    by simp
  show ?thesis
    using r es sk m
    by (simp add: Schema_load_def deserialize_many_def StrictSchema_handle_error_def)
qed

lemma truthy_JList: "truthy (JList xs) \<longleftrightarrow> xs \<noteq> []"
  by (cases xs) simp_all

lemma Nested_many_strict:
  "call_and_store (Nested True (Schema_load True u StrictSchema_handle_error fs) (Some (JList ds))) =
     (if \<forall>d \<in> set ds. snd (deserialize_one u fs d) = []
      then (Some (JList (map (\<lambda>d. JDict (fst (deserialize_one u fs d))) ds)), None)
      else ((case filter (\<lambda>d. snd (deserialize_one u fs d) = []) ds of
               [] \<Rightarrow> None | y # ys \<Rightarrow> Some (JList (y # ys))),
            Some (Sub (snd (many_loop u fs 0 ds)))))"
  by (simp add: Nested_def deserialize_def Nested_deserialize_def StrictSchema_load_many
      call_and_store_def truthy_JList split: list.split)

lemma nested_fields:
  "map_of (ManifestSchema_fields e) ''authors'' = Some (Nested True (AuthorSchema_load e True))"
  "map_of (ManifestSchema_fields e) ''examples'' = Some (Nested True (ExampleSchema_load True))"
  by (simp_all add: ManifestSchema_fields_def)

lemma nested_many_field:
  assumes "(k, fs) = (''authors'', AuthorSchema_fields e) \<or> (k, fs) = (''examples'', ExampleSchema_fields)"
  shows "map_of (ManifestSchema_fields e) k =
           Some (Nested True (Schema_load True RAISE StrictSchema_handle_error fs))"
    and "k \<noteq> ''version''" and "k \<noteq> ''license''"
  using assms
  by (auto simp: nested_fields AuthorSchema_load_def ExampleSchema_load_def)

lemma nested_many_broken:
  assumes "(k, fs) = (''authors'', AuthorSchema_fields e) \<or> (k, fs) = (''examples'', ExampleSchema_fields)"
    and "map_of kvs k = Some (JList items)"
    and "\<exists>d \<in> set items. snd (deserialize_one RAISE fs d) \<noteq> []"
  shows "load_manifest False e loaded (JDict kvs) =
           Inr (Some (JDict (fst (deserialize_and_validate e loaded (JDict kvs)))),
                Some (Sub (snd (deserialize_and_validate e loaded (JDict kvs)))))"
    and "map_of (fst (deserialize_and_validate e loaded (JDict kvs))) k =
           (case filter (\<lambda>d. snd (deserialize_one RAISE fs d) = []) items of
              [] \<Rightarrow> None | y # ys \<Rightarrow> Some (JList (y # ys)))"
    and "map_of (snd (deserialize_and_validate e loaded (JDict kvs))) (Key k) =
           Some (Sub (snd (many_loop RAISE fs 0 items)))"
proof -
  note f = nested_many_field [OF assms(1)]
  from assms(3) have broken: "\<not> (\<forall>d \<in> set items. snd (deserialize_one RAISE fs d) = [])"
    by blast
  have cs: "call_and_store (Nested True (Schema_load True RAISE StrictSchema_handle_error fs)
                             (Some (JList items))) =
              ((case filter (\<lambda>d. snd (deserialize_one RAISE fs d) = []) items of
                  [] \<Rightarrow> None | y # ys \<Rightarrow> Some (JList (y # ys))),
               Some (Sub (snd (many_loop RAISE fs 0 items))))"
    by (simp only: Nested_many_strict broken if_False)
  have "map_of (snd (deserialize_fields (ManifestSchema_fields e) kvs)) (Key k) =
          Some (Sub (snd (many_loop RAISE fs 0 items)))"
    by (simp add: deserialize_fields_error ManifestSchema_fields_distinct f(1) assms(2) cs)
  then show e: "map_of (snd (deserialize_and_validate e loaded (JDict kvs))) (Key k) =
           Some (Sub (snd (many_loop RAISE fs 0 items)))"
    by (rule validated_error_kept)
  have "map_of (fst (deserialize_fields (ManifestSchema_fields e) kvs)) k =
           (case filter (\<lambda>d. snd (deserialize_one RAISE fs d) = []) items of
              [] \<Rightarrow> None | y # ys \<Rightarrow> Some (JList (y # ys)))"
    by (simp add: deserialize_fields_value ManifestSchema_fields_distinct f(1) assms(2) cs)
  then show "map_of (fst (deserialize_and_validate e loaded (JDict kvs))) k =
           (case filter (\<lambda>d. snd (deserialize_one RAISE fs d) = []) items of
              [] \<Rightarrow> None | y # ys \<Rightarrow> Some (JList (y # ys)))"
    using f(2,3) by (simp add: validated_value_other)
  from e have "snd (deserialize_and_validate e loaded (JDict kvs)) \<noteq> []" by auto
  then show "load_manifest False e loaded (JDict kvs) =
           Inr (Some (JDict (fst (deserialize_and_validate e loaded (JDict kvs)))),
                Some (Sub (snd (deserialize_and_validate e loaded (JDict kvs)))))"
    by (simp add: load_manifest_best_effort)
qed

lemma author_named:
  "deserialize_one RAISE (AuthorSchema_fields e) (JDict [(''name'', JStr ''A'')]) =
     ([(''name'', JStr ''A'')], [])"
  by (simp add: deserialize_one_def AuthorSchema_fields_def unknown_errors_def Str_accepts
      Email_def Url_def Bool_def deserialize_def)

lemma author_unnamed:
  "\<exists>v rest. deserialize_one RAISE (AuthorSchema_fields e) (JDict [(''email'', JStr ''bad'')]) =
     (v, (Key ''name'', Msgs [''Missing data for required field.'']) # rest)"
  by (simp add: deserialize_one_def AuthorSchema_fields_def unknown_errors_def Str_def
      required_missing case_prod_beta)

lemma author_unnamed_sample:
  "deserialize_one RAISE (AuthorSchema_fields sample_env) (JDict [(''email'', JStr ''bad'')]) =
     ([], [(Key ''name'', Msgs [''Missing data for required field.'']),
           (Key ''email'', Msgs [''Not a valid email address.''])])"
  by code_simp

section \<open>List fields\<close>

lemma string_field_cases:
  "deserialize req (String_deserialize msg) val (Some x) = Inr v \<Longrightarrow> v = Some x"
  "deserialize req (String_deserialize msg) val (Some x) = Inl err \<Longrightarrow> valid_data err = None"
  by (cases x; auto simp: deserialize_def String_deserialize_def make_error_def
        split: list.splits if_splits)+

lemma List_loop_Str:
  "fst (List_loop (Str req vs) idx items) = filter (\<lambda>x. \<not> isl (Str req vs (Some x))) items"
proof (induction items arbitrary: idx)
  case Nil
  then show ?case by simp
next
  case (Cons x items)
  show ?case
  proof (cases "Str req vs (Some x)")
    case (Inl err)
    with string_field_cases(2) [of req "''Not a valid string.''" "on_str vs" x err]
    have "valid_data err = None" by (simp add: Str_def)
    with Inl Cons [of "Suc idx"] show ?thesis by (simp add: case_prod_beta)
  next
    case (Inr v)
    with string_field_cases(1) [of req "''Not a valid string.''" "on_str vs" x v]
    have "v = Some x" by (simp add: Str_def)
    with Inr Cons [of "Suc idx"] show ?thesis by (simp add: case_prod_beta)
  qed
qed

lemma StrictListField_value:
  assumes "fst (call_and_store (StrictListField req (Str r vs) x)) = Some v"
  shows "\<exists>items. x = Some (JList items)
           \<and> v = JList (filter (\<lambda>y. \<not> isl (Str r vs (Some y))) items)"
proof -
  from assms obtain j where x: "x = Some j" and "j \<noteq> JNull"
    by (cases x; cases "the x")
       (auto simp: StrictListField_def deserialize_def call_and_store_def make_error_def
          split: if_splits)
  with assms obtain items where j: "j = JList items"
    by (cases j)
       (auto simp: StrictListField_def deserialize_def call_and_store_def make_error_def
          StrictListField_deserialize_def List_deserialize_def)
  let ?l = "List_loop (Str r vs) 0 items"
  have v: "fst ?l = filter (\<lambda>y. \<not> isl (Str r vs (Some y))) items"
    by (rule List_loop_Str)
  from assms have "v = JList (fst ?l)"
    unfolding x j
    by (auto simp: StrictListField_def deserialize_def call_and_store_def make_error_def
          StrictListField_deserialize_def List_deserialize_def case_prod_beta Let_def
          split: if_splits)
  with v x j show ?thesis by simp
qed

lemma Nested_many_value:
  assumes "fst (call_and_store (Nested True (Schema_load True u StrictSchema_handle_error fs) x))
             = Some v"
  shows "\<exists>items. x = Some (JList items)
           \<and> v = JList (if \<forall>d \<in> set items. snd (deserialize_one u fs d) = []
                        then map (\<lambda>d. JDict (fst (deserialize_one u fs d))) items
                        else filter (\<lambda>d. snd (deserialize_one u fs d) = []) items)"
proof -
  from assms obtain j where x: "x = Some j" and "j \<noteq> JNull"
    by (cases x; cases "the x")
       (auto simp: Nested_def deserialize_def call_and_store_def make_error_def
          split: if_splits)
  with assms obtain items where j: "j = JList items"
    by (cases j)
       (auto simp: Nested_def deserialize_def call_and_store_def make_error_def
          Nested_deserialize_def)
  from assms show ?thesis
    unfolding x j
    by (auto simp: Nested_many_strict split: if_splits list.splits)
qed

lemma list_fields:
  "map_of (ManifestSchema_fields e) ''keywords'' =
     Some (StrictListField False
            (Str False [Length 1 50, Regexp re_keyword ''Only [a-z0-9-+. ] chars are allowed'']))"
  "map_of (ManifestSchema_fields e) ''platforms'' =
     Some (StrictListField False
            (Str False [Length 1 50, Regexp re_platform ''Only [a-z0-9-_*] chars are allowed'']))"
  "map_of (ManifestSchema_fields e) ''frameworks'' =
     Some (StrictListField False
            (Str False [Length 1 50, Regexp re_platform ''Only [a-z0-9-_*] chars are allowed'']))"
  "map_of (ManifestSchema_fields e) ''system'' =
     Some (StrictListField False
            (Str False [Length 1 50, Regexp re_system ''Only [a-z0-9-_] chars are allowed'']))"
  by (simp_all add: ManifestSchema_fields_def)

lemma string_list_field:
  assumes "(k, vs) = (''keywords'',
              [Length 1 50, Regexp re_keyword ''Only [a-z0-9-+. ] chars are allowed''])
           \<or> (k, vs) = (''platforms'',
              [Length 1 50, Regexp re_platform ''Only [a-z0-9-_*] chars are allowed''])
           \<or> (k, vs) = (''frameworks'',
              [Length 1 50, Regexp re_platform ''Only [a-z0-9-_*] chars are allowed''])
           \<or> (k, vs) = (''system'',
              [Length 1 50, Regexp re_system ''Only [a-z0-9-_] chars are allowed''])"
  shows "map_of (ManifestSchema_fields e) k = Some (StrictListField False (Str False vs))"
  using assms by (auto simp: list_fields)

lemma string_list_value:
  assumes "map_of (ManifestSchema_fields e) k = Some (StrictListField False (Str False vs))"
    and "map_of (fst (deserialize_and_validate e loaded (JDict kvs))) k = Some v"
  shows "\<exists>items. map_of kvs k = Some (JList items)
           \<and> v = JList (filter (\<lambda>x. \<not> isl (Str False vs (Some x))) items)"
proof -
  from validated_value_kept [OF assms(2)] assms(1)
  have "fst (call_and_store (StrictListField False (Str False vs) (map_of kvs k))) = Some v"
    by (simp add: deserialize_fields_value ManifestSchema_fields_distinct)
  then show ?thesis by (rule StrictListField_value)
qed

lemma nested_many_value:
  assumes "(k, fs) = (''authors'', AuthorSchema_fields e) \<or> (k, fs) = (''examples'', ExampleSchema_fields)"
    and "map_of (fst (deserialize_and_validate e loaded (JDict kvs))) k = Some v"
  shows "\<exists>items. map_of kvs k = Some (JList items)
           \<and> v = JList (if \<forall>d \<in> set items. snd (deserialize_one RAISE fs d) = []
                        then map (\<lambda>d. JDict (fst (deserialize_one RAISE fs d))) items
                        else filter (\<lambda>d. snd (deserialize_one RAISE fs d) = []) items)"
proof -
  from validated_value_kept [OF assms(2)] nested_many_field(1) [OF assms(1)]
  have "fst (call_and_store (Nested True (Schema_load True RAISE StrictSchema_handle_error fs)
                               (map_of kvs k))) = Some v"
    by (simp add: deserialize_fields_value ManifestSchema_fields_distinct)
  then show ?thesis by (rule Nested_many_value)
qed

lemma validated_sample_keywords:
  "deserialize_and_validate sample_env (Inr sample_spdx)
     (JDict [(''name'', JStr ''x''), (''version'', JStr ''1.2''),
             (''keywords'', JList [JStr ''usb'', JStr ''USB'', JInt 3, JStr ''i2c''])]) =
   ([(''name'', JStr ''x''), (''version'', JStr ''1.2''),
     (''keywords'', JList [JStr ''usb'', JStr ''i2c''])],
    [(Key ''keywords'',
      Sub [(Index 1, Msgs [''Only [a-z0-9-+. ] chars are allowed'']),
           (Index 2, Msgs [''Not a valid string.''])])])"
  by code_simp

section \<open>The validators of version and license\<close>

lemma find_license_iff:
  "find_license items value \<longleftrightarrow>
     (\<exists>item \<in> set items. map_of item ''licenseId'' = Some (JStr value))"
  by (induction items) auto

text \<open>
  C5. The version validator accepts exactly the strings that contain a \<open>.\<close> and that
  \<open>semantic_version\<close> coerces; every other string fails with the "Invalid semantic
  versioning format" error. So \<open>"1.2"\<close> passes (it is coercible), and \<open>"abc"\<close> and
  \<open>"1"\<close>, which have no dot, fail whatever the coercion says.
\<close>

theorem validate_version_accepts:
  "(validate_version e value = None \<longleftrightarrow> CHR ''.'' \<in> set value \<and> coerce e value)
   \<and> (validate_version e value \<noteq> None \<longrightarrow>
        validate_version e value =
          Some ''Invalid semantic versioning format, see https://semver.org/'')
   \<and> (coerce e ''1.2'' \<longrightarrow> validate_version e ''1.2'' = None)
   \<and> validate_version e ''abc'' = Some ''Invalid semantic versioning format, see https://semver.org/''
   \<and> validate_version e ''1'' = Some ''Invalid semantic versioning format, see https://semver.org/''"
  by (simp add: validate_version_def)

theorem validate_version_accepts_witness:
  "coerce sample_env ''1.2'' \<and> validate_version sample_env ''1.2'' = None
   \<and> validate_version sample_env ''1.x'' = None
   \<and> validate_version sample_env ''a.b'' \<noteq> None"
  using validate_version_accepts [of sample_env "''1.2''"]
    validate_version_accepts [of sample_env "''1.x''"]
    validate_version_accepts [of sample_env "''a.b''"]
  by (simp add: sample_env_def is_digit_def)

text \<open>
  C8. With the registry loaded, the license validator succeeds exactly when the value
  equals the \<open>licenseId\<close> of some entry of the registry's \<open>licenses\<close> array (string
  equality, so case matters); any other value fails as an invalid SPDX identifier.
\<close>

theorem validate_license_iff:
  "(validate_license (Inr spdx) value = None \<longleftrightarrow>
      (\<exists>item \<in> set (case map_of spdx ''licenses'' of Some items \<Rightarrow> items | None \<Rightarrow> []).
         map_of item ''licenseId'' = Some (JStr value)))
   \<and> (validate_license (Inr spdx) value \<noteq> None \<longrightarrow>
        validate_license (Inr spdx) value =
          Some ''Invalid SPDX license identifier. See valid identifiers at https://spdx.org/licenses/'')"
  by (simp add: validate_license_def find_license_iff)

theorem validate_license_iff_witness:
  "validate_license (Inr sample_spdx) ''MIT'' = None
   \<and> validate_license (Inr sample_spdx) ''mit'' =
       Some ''Invalid SPDX license identifier. See valid identifiers at https://spdx.org/licenses/''"
  using validate_license_iff [of sample_spdx "''MIT''"] validate_license_iff [of sample_spdx "''mit''"]
  by (simp add: sample_spdx_def)

section \<open>The cached registry\<close>

text \<open>
  C6. The time to live is one hour. A lookup made while \<open>now - fetch_timestamp < TTL\<close>
  answers from the cache and issues no request (the state, request counter included, is
  unchanged), whatever the network would answer; in particular, after a lookup that
  fetched at \<open>t1\<close>, a second lookup at \<open>t2\<close> with \<open>t2 - t1 < TTL\<close> is a cache hit. Once
  the entry has expired, the lookup issues one request and answers with its outcome.
\<close>

theorem registry_cache_ttl:
  "TTL = 3600
   \<and> (snapshot c = Some (ts, doc) \<and> now - ts < TTL \<longrightarrow>
        load_spdx_licenses now response c = (Inr doc, c))
   \<and> (snapshot c = None \<and> t2 - t1 < TTL \<longrightarrow>
        (case load_spdx_licenses t1 (Inr doc) c of (r1, c1) \<Rightarrow>
           r1 = Inr doc \<and> requests c1 = Suc (requests c)
           \<and> load_spdx_licenses t2 response c1 = (Inr doc, c1)))
   \<and> (snapshot c = Some (ts, doc) \<and> \<not> now - ts < TTL \<longrightarrow>
        fst (load_spdx_licenses now response c) = response
        \<and> requests (snd (load_spdx_licenses now response c)) = Suc (requests c))"
  by (simp add: load_spdx_licenses_def refetch_def TTL_def split: sum.splits)

theorem registry_cache_ttl_witness:
  "load_spdx_licenses 100 (Inl RequestException) \<lparr>snapshot = Some (0, sample_spdx), requests = 1\<rparr>
     = (Inr sample_spdx, \<lparr>snapshot = Some (0, sample_spdx), requests = 1\<rparr>)
   \<and> requests (snd (load_spdx_licenses 3600 (Inr [])
                      \<lparr>snapshot = Some (0, sample_spdx), requests = 1\<rparr>)) = 2
   \<and> load_spdx_licenses 3604 (Inl RequestException)
        (snd (load_spdx_licenses 5 (Inr sample_spdx) \<lparr>snapshot = None, requests = 0\<rparr>))
      = (Inr sample_spdx, \<lparr>snapshot = Some (5, sample_spdx), requests = 1\<rparr>)"
proof (intro conjI)
  show "load_spdx_licenses 100 (Inl RequestException) \<lparr>snapshot = Some (0, sample_spdx), requests = 1\<rparr>
          = (Inr sample_spdx, \<lparr>snapshot = Some (0, sample_spdx), requests = 1\<rparr>)"
    using registry_cache_ttl [of "\<lparr>snapshot = Some (0, sample_spdx), requests = 1\<rparr>" 0
        sample_spdx 100 "Inl RequestException"]
    by (simp add: load_spdx_licenses_def refetch_def TTL_def)
  show "requests (snd (load_spdx_licenses 3600 (Inr [])
                         \<lparr>snapshot = Some (0, sample_spdx), requests = 1\<rparr>)) = 2"
    using registry_cache_ttl [of "\<lparr>snapshot = Some (0, sample_spdx), requests = 1\<rparr>" 0
        sample_spdx 3600 "Inr []"]
    by (simp add: load_spdx_licenses_def refetch_def TTL_def)
  show "load_spdx_licenses 3604 (Inl RequestException)
          (snd (load_spdx_licenses 5 (Inr sample_spdx) \<lparr>snapshot = None, requests = 0\<rparr>))
        = (Inr sample_spdx, \<lparr>snapshot = Some (5, sample_spdx), requests = 1\<rparr>)"
    using registry_cache_ttl [of "\<lparr>snapshot = None, requests = 0\<rparr>" 0 sample_spdx 0
        "Inl RequestException" 3604 5]
    by (simp add: load_spdx_licenses_def refetch_def TTL_def)
qed

section \<open>Strict and best-effort loading\<close>

text \<open>
  C10. Without \<open>strict\<close>, \<open>load_manifest\<close> returns for every document, and what it
  returns first is always a document. It returns the data and \<open>None\<close> exactly for the
  objects in which every declared field deserialises and the validators of \<open>version\<close>
  and \<open>license\<close> accept the string given; the data are then the deserialised fields.
  For every other document it returns the valid data and the messages, of which there is
  at least one. With \<open>strict\<close>, the call returns the same pair in the first case and
  raises \<open>ManifestValidationError\<close>, which the handler of \<open>load_manifest\<close> does
  not catch, with those messages and valid data in the second.
\<close>

theorem load_manifest_total:
  "(\<exists>valid m. load_manifest False e loaded manifest = Inr (Some (JDict valid), m)
       \<and> (m = None \<longrightarrow> load_manifest True e loaded manifest = Inr (Some (JDict valid), None))
       \<and> (\<forall>msgs. m = Some msgs \<longrightarrow>
             (\<exists>errs. msgs = Sub errs \<and> errs \<noteq> [])
             \<and> load_manifest True e loaded manifest =
                 Inl (ManifestValidationError
                       \<lparr>messages = msgs, data = Some manifest, valid_data = Some (JDict valid)\<rparr>
                       manifest)))
   \<and> ((\<exists>d. load_manifest False e loaded manifest = Inr (d, None)) \<longleftrightarrow>
        (\<exists>kvs. manifest = JDict kvs
           \<and> (\<forall>(k, f) \<in> set (ManifestSchema_fields e). \<not> isl (f (map_of kvs k)))
           \<and> (\<forall>s. map_of kvs ''version'' = Some (JStr s) \<longrightarrow> validate_version e s = None)
           \<and> (\<forall>s. map_of kvs ''license'' = Some (JStr s) \<longrightarrow> validate_license loaded s = None)))
   \<and> (\<forall>kvs d. manifest = JDict kvs \<longrightarrow> load_manifest False e loaded manifest = Inr (d, None) \<longrightarrow>
          d = Some (JDict (fst (deserialize_fields (ManifestSchema_fields e) kvs))))"
proof (intro conjI)
  let ?dav = "deserialize_and_validate e loaded manifest"
  show "\<exists>valid m. load_manifest False e loaded manifest = Inr (Some (JDict valid), m)
       \<and> (m = None \<longrightarrow> load_manifest True e loaded manifest = Inr (Some (JDict valid), None))
       \<and> (\<forall>msgs. m = Some msgs \<longrightarrow>
             (\<exists>errs. msgs = Sub errs \<and> errs \<noteq> [])
             \<and> load_manifest True e loaded manifest =
                 Inl (ManifestValidationError
                       \<lparr>messages = msgs, data = Some manifest, valid_data = Some (JDict valid)\<rparr>
                       manifest))"
    by (simp add: load_manifest_best_effort load_manifest_strict)
  have none: "(\<exists>d. load_manifest False e loaded manifest = Inr (d, None)) \<longleftrightarrow> snd ?dav = []"
    by (simp add: load_manifest_best_effort)
  show "(\<exists>d. load_manifest False e loaded manifest = Inr (d, None)) \<longleftrightarrow>
        (\<exists>kvs. manifest = JDict kvs
           \<and> (\<forall>(k, f) \<in> set (ManifestSchema_fields e). \<not> isl (f (map_of kvs k)))
           \<and> (\<forall>s. map_of kvs ''version'' = Some (JStr s) \<longrightarrow> validate_version e s = None)
           \<and> (\<forall>s. map_of kvs ''license'' = Some (JStr s) \<longrightarrow> validate_license loaded s = None))"
  proof (cases "\<exists>kvs. manifest = JDict kvs")
    case True
    then obtain kvs where m: "manifest = JDict kvs" ..
    show ?thesis unfolding none unfolding m
      by (simp only: validated_no_errors json.inject simp_thms ex_simps)
  next
    case False
    then have "snd ?dav \<noteq> []" by (simp add: validated_not_object)
    with False show ?thesis unfolding none by blast
  qed
  show "\<forall>kvs d. manifest = JDict kvs \<longrightarrow> load_manifest False e loaded manifest = Inr (d, None) \<longrightarrow>
          d = Some (JDict (fst (deserialize_fields (ManifestSchema_fields e) kvs)))"
  proof (intro allI impI)
    fix kvs d
    assume m: "manifest = JDict kvs" and l: "load_manifest False e loaded manifest = Inr (d, None)"
    from l have "snd ?dav = []" by (simp add: load_manifest_best_effort split: if_splits)
    with m l validated_accepted_value [of e loaded kvs]
    show "d = Some (JDict (fst (deserialize_fields (ManifestSchema_fields e) kvs)))"
      by (simp add: load_manifest_best_effort)
  qed
qed

theorem load_manifest_total_witness:
  "load_manifest False sample_env (Inr sample_spdx)
     (JDict [(''name'', JStr ''x''), (''version'', JStr ''1.2''), (''license'', JStr ''MIT'')]) =
   Inr (Some (JDict [(''name'', JStr ''x''), (''version'', JStr ''1.2''), (''license'', JStr ''MIT'')]),
        None)
   \<and> load_manifest True sample_env (Inr sample_spdx)
       (JDict [(''name'', JStr ''x''), (''version'', JStr ''1.2''), (''license'', JStr ''MIT'')]) =
     Inr (Some (JDict [(''name'', JStr ''x''), (''version'', JStr ''1.2''), (''license'', JStr ''MIT'')]),
          None)
   \<and> load_manifest False sample_env (Inr sample_spdx)
       (JDict [(''name'', JStr ''x''), (''version'', JStr ''1''), (''license'', JStr ''MIT'')]) =
     Inr (Some (JDict [(''name'', JStr ''x''), (''license'', JStr ''MIT'')]),
          Some (Sub [(Key ''version'',
                      Msgs [''Invalid semantic versioning format, see https://semver.org/''])]))
   \<and> load_manifest True sample_env (Inr sample_spdx)
       (JDict [(''name'', JStr ''x''), (''version'', JStr ''1''), (''license'', JStr ''MIT'')]) =
     Inl (ManifestValidationError
           \<lparr>messages = Sub [(Key ''version'',
                      Msgs [''Invalid semantic versioning format, see https://semver.org/''])],
            data = Some (JDict [(''name'', JStr ''x''), (''version'', JStr ''1''),
                                (''license'', JStr ''MIT'')]),
            valid_data = Some (JDict [(''name'', JStr ''x''), (''license'', JStr ''MIT'')])\<rparr>
           (JDict [(''name'', JStr ''x''), (''version'', JStr ''1''), (''license'', JStr ''MIT'')]))"
proof (intro conjI)
  let ?good = "[(''name'', JStr ''x''), (''version'', JStr ''1.2''), (''license'', JStr ''MIT'')]"
  let ?bad = "[(''name'', JStr ''x''), (''version'', JStr ''1''), (''license'', JStr ''MIT'')]"
  note good = load_manifest_total [of sample_env "Inr sample_spdx" "JDict ?good"]
  note bad = load_manifest_total [of sample_env "Inr sample_spdx" "JDict ?bad"]
  have "\<exists>kvs. JDict ?good = JDict kvs
           \<and> (\<forall>(k, f) \<in> set (ManifestSchema_fields sample_env). \<not> isl (f (map_of kvs k)))
           \<and> (\<forall>s. map_of kvs ''version'' = Some (JStr s) \<longrightarrow> validate_version sample_env s = None)
           \<and> (\<forall>s. map_of kvs ''license'' = Some (JStr s) \<longrightarrow>
                  validate_license (Inr sample_spdx) s = None)"
    using sample_fields_accept by (simp add: sample_validators_accept)
  with good [THEN conjunct2, THEN conjunct1]
  obtain d where d: "load_manifest False sample_env (Inr sample_spdx) (JDict ?good) = Inr (d, None)"
    by blast
  from good [THEN conjunct2, THEN conjunct2, rule_format, OF refl d]
  have "d = Some (JDict ?good)" by (simp only: sample_fields_value)
  with d show best: "load_manifest False sample_env (Inr sample_spdx) (JDict ?good) =
      Inr (Some (JDict ?good), None)"
    by simp
  from good [THEN conjunct1] best
  show "load_manifest True sample_env (Inr sample_spdx) (JDict ?good) =
      Inr (Some (JDict ?good), None)"
    by simp
  show "load_manifest False sample_env (Inr sample_spdx) (JDict ?bad) =
     Inr (Some (JDict [(''name'', JStr ''x''), (''license'', JStr ''MIT'')]),
          Some (Sub [(Key ''version'',
                      Msgs [''Invalid semantic versioning format, see https://semver.org/''])]))"
    by (rule load_sample_invalid_best_effort)
  from bad [THEN conjunct1]
  show "load_manifest True sample_env (Inr sample_spdx) (JDict ?bad) =
     Inl (ManifestValidationError
           \<lparr>messages = Sub [(Key ''version'',
                      Msgs [''Invalid semantic versioning format, see https://semver.org/''])],
            data = Some (JDict ?bad),
            valid_data = Some (JDict [(''name'', JStr ''x''), (''license'', JStr ''MIT'')])\<rparr>
           (JDict ?bad))"
    by (simp add: load_sample_invalid_best_effort)
qed

text \<open>
  C7. A document without \<open>name\<close> (or without \<open>version\<close>) fails in strict mode, the
  error carrying "Missing data for required field." under that field; in best-effort mode
  the call returns the repaired document, which does not have the field, and the messages,
  which have that entry for it.
\<close>

theorem required_field_missing:
  assumes "field_name = ''name'' \<or> field_name = ''version''"
    and "map_of kvs field_name = None"
  shows "\<exists>valid errs.
           load_manifest False e loaded (JDict kvs) = Inr (Some (JDict valid), Some (Sub errs))
           \<and> map_of valid field_name = None
           \<and> map_of errs (Key field_name) = Some (Msgs [''Missing data for required field.''])
           \<and> load_manifest True e loaded (JDict kvs) =
               Inl (ManifestValidationError
                     \<lparr>messages = Sub errs, data = Some (JDict kvs), valid_data = Some (JDict valid)\<rparr>
                     (JDict kvs))"
proof -
  obtain valid errs where v: "deserialize_and_validate e loaded (JDict kvs) = (valid, errs)"
    by (cases "deserialize_and_validate e loaded (JDict kvs)")
  from assms have f: "\<exists>vs. map_of (ManifestSchema_fields e) field_name = Some (Str True vs)"
    by (auto simp: required_fields)
  then obtain vs where vs: "map_of (ManifestSchema_fields e) field_name = Some (Str True vs)" ..
  have des_err: "map_of (snd (deserialize_fields (ManifestSchema_fields e) kvs)) (Key field_name)
                  = Some (Msgs [''Missing data for required field.''])"
    using assms(2) vs
    by (simp add: deserialize_fields_error ManifestSchema_fields_distinct Str_def required_missing)
  have des_val: "map_of (fst (deserialize_fields (ManifestSchema_fields e) kvs)) field_name = None"
    using assms(2) vs
    by (simp add: deserialize_fields_value ManifestSchema_fields_distinct Str_def required_missing)
  from validated_error_kept [OF des_err, of loaded] v
  have e1: "map_of errs (Key field_name) = Some (Msgs [''Missing data for required field.''])"
    by simp
  then have ne: "errs \<noteq> []" by auto
  from validated_value_None [OF des_val, of loaded] v
  have v1: "map_of valid field_name = None" by simp
  from load_manifest_errors [OF v ne] e1 v1 show ?thesis by blast
qed

theorem required_field_missing_witness:
  "map_of [(''name'', JStr ''x'')] ''version'' = None
   \<and> (\<exists>valid errs.
         load_manifest False sample_env (Inl RequestException) (JDict [(''name'', JStr ''x'')])
           = Inr (Some (JDict valid), Some (Sub errs))
         \<and> map_of valid ''version'' = None
         \<and> map_of errs (Key ''version'') = Some (Msgs [''Missing data for required field.''])
         \<and> load_manifest True sample_env (Inl RequestException) (JDict [(''name'', JStr ''x'')]) =
             Inl (ManifestValidationError
                   \<lparr>messages = Sub errs, data = Some (JDict [(''name'', JStr ''x'')]),
                    valid_data = Some (JDict valid)\<rparr>
                   (JDict [(''name'', JStr ''x'')])))"
  using required_field_missing [of "''version''" "[(''name'', JStr ''x'')]" sample_env
      "Inl RequestException"]
  by simp

text \<open>
  C1, as stated, fails: strict mode does not stop at the first violation. For the
  document \<open>{"version": "abc"}\<close> the one error raised reports the missing \<open>name\<close>
  and the invalid \<open>version\<close>: the validator of the second field ran although the first
  had failed.
\<close>

theorem strict_collects_counterexample:
  "load_manifest True sample_env (Inl RequestException) (JDict [(''version'', JStr ''abc'')]) =
     Inl (ManifestValidationError
           \<lparr>messages = Sub [(Key ''name'', Msgs [''Missing data for required field.'']),
                            (Key ''version'',
                             Msgs [''Invalid semantic versioning format, see https://semver.org/''])],
            data = Some (JDict [(''version'', JStr ''abc'')]),
            valid_data = Some (JDict [])\<rparr>
           (JDict [(''version'', JStr ''abc'')]))"
  by code_simp

text \<open>
  C1, amended. In strict mode a document with at least one violation makes the call raise
  one \<open>ManifestValidationError\<close> and return nothing. The error carries the input and
  the messages of all the violations found, the same as best-effort mode returns. For an
  object these include the message of every declared field that fails to deserialise,
  under that field, and, for \<open>version\<close> and \<open>license\<close> given as a string that the
  field accepts, the message of the validator method when it refuses the string. A
  document that is not an object has the one message "Invalid input type." under
  \<open>_schema\<close>.
\<close>

theorem strict_reports_every_violation:
  assumes "load_manifest False e loaded manifest = Inr (valid, Some msgs)"
  shows "load_manifest True e loaded manifest =
           Inl (ManifestValidationError
                 \<lparr>messages = msgs, data = Some manifest, valid_data = valid\<rparr> manifest)
         \<and> (\<forall>kvs. manifest = JDict kvs \<longrightarrow>
              (\<forall>k f m. (k, f) \<in> set (ManifestSchema_fields e) \<longrightarrow>
                   snd (call_and_store (f (map_of kvs k))) = Some m \<longrightarrow>
                   lookup msgs (Key k) = Some m)
              \<and> (\<forall>s m. map_of kvs ''version'' = Some (JStr s) \<longrightarrow>
                   1 \<le> length s \<longrightarrow> length s \<le> 50 \<longrightarrow> validate_version e s = Some m \<longrightarrow>
                   lookup msgs (Key ''version'') = Some (Msgs [m]))
              \<and> (\<forall>s m. map_of kvs ''license'' = Some (JStr s) \<longrightarrow>
                   1 \<le> length s \<longrightarrow> length s \<le> 255 \<longrightarrow> validate_license loaded s = Some m \<longrightarrow>
                   lookup msgs (Key ''license'') = Some (Msgs [m])))
         \<and> ((\<forall>kvs. manifest \<noteq> JDict kvs) \<longrightarrow>
              msgs = Sub [(Key ''_schema'', Msgs [''Invalid input type.''])])"
proof -
  let ?dav = "deserialize_and_validate e loaded manifest"
  from assms have ne: "snd ?dav \<noteq> []" and msgs: "msgs = Sub (snd ?dav)"
    and valid: "valid = Some (JDict (fst ?dav))"
    by (auto simp: load_manifest_best_effort split: if_splits)
  have strict: "load_manifest True e loaded manifest =
           Inl (ManifestValidationError
                 \<lparr>messages = msgs, data = Some manifest, valid_data = valid\<rparr> manifest)"
    using ne msgs valid by (simp add: load_manifest_strict)
  have object: "(\<forall>k f m. (k, f) \<in> set (ManifestSchema_fields e) \<longrightarrow>
                   snd (call_and_store (f (map_of kvs k))) = Some m \<longrightarrow>
                   lookup msgs (Key k) = Some m)
              \<and> (\<forall>s m. map_of kvs ''version'' = Some (JStr s) \<longrightarrow>
                   1 \<le> length s \<longrightarrow> length s \<le> 50 \<longrightarrow> validate_version e s = Some m \<longrightarrow>
                   lookup msgs (Key ''version'') = Some (Msgs [m]))
              \<and> (\<forall>s m. map_of kvs ''license'' = Some (JStr s) \<longrightarrow>
                   1 \<le> length s \<longrightarrow> length s \<le> 255 \<longrightarrow> validate_license loaded s = Some m \<longrightarrow>
                   lookup msgs (Key ''license'') = Some (Msgs [m]))"
    if m: "manifest = JDict kvs" for kvs
    unfolding msgs m lookup_def
    using field_message_reported [of _ _ e kvs _ loaded]
      version_message_reported [of kvs _ e _ loaded]
      license_message_reported [of kvs _ loaded _ e]
    by simp
  have other: "msgs = Sub [(Key ''_schema'', Msgs [''Invalid input type.''])]"
    if "\<forall>kvs. manifest \<noteq> JDict kvs"
    using that msgs by (simp add: validated_not_object)
  from strict object other show ?thesis by blast
qed

theorem strict_reports_every_violation_witness:
  "load_manifest True sample_env (Inl RequestException)
     (JDict [(''version'', JStr ''abc''), (''license'', JStr ''MIT'')]) =
   Inl (ManifestValidationError
         \<lparr>messages =
            Sub [(Key ''name'', Msgs [''Missing data for required field.'']),
                 (Key ''license'', Msgs [''Could not load SPDX licenses for validation'']),
                 (Key ''version'',
                  Msgs [''Invalid semantic versioning format, see https://semver.org/''])],
          data = Some (JDict [(''version'', JStr ''abc''), (''license'', JStr ''MIT'')]),
          valid_data = Some (JDict [])\<rparr>
         (JDict [(''version'', JStr ''abc''), (''license'', JStr ''MIT'')]))
   \<and> lookup (Sub [(Key ''name'', Msgs [''Missing data for required field.'']),
                 (Key ''license'', Msgs [''Could not load SPDX licenses for validation'']),
                 (Key ''version'',
                  Msgs [''Invalid semantic versioning format, see https://semver.org/''])])
        (Key ''name'') = Some (Msgs [''Missing data for required field.''])
   \<and> lookup (Sub [(Key ''name'', Msgs [''Missing data for required field.'']),
                 (Key ''license'', Msgs [''Could not load SPDX licenses for validation'']),
                 (Key ''version'',
                  Msgs [''Invalid semantic versioning format, see https://semver.org/''])])
        (Key ''version'') =
       Some (Msgs [''Invalid semantic versioning format, see https://semver.org/''])
   \<and> lookup (Sub [(Key ''name'', Msgs [''Missing data for required field.'']),
                 (Key ''license'', Msgs [''Could not load SPDX licenses for validation'']),
                 (Key ''version'',
                  Msgs [''Invalid semantic versioning format, see https://semver.org/''])])
        (Key ''license'') = Some (Msgs [''Could not load SPDX licenses for validation''])"
proof (intro conjI)
  let ?doc = "[(''version'', JStr ''abc''), (''license'', JStr ''MIT'')]"
  let ?msgs = "Sub [(Key ''name'', Msgs [''Missing data for required field.'']),
                 (Key ''license'', Msgs [''Could not load SPDX licenses for validation'']),
                 (Key ''version'',
                  Msgs [''Invalid semantic versioning format, see https://semver.org/''])]"
  note inst = strict_reports_every_violation [OF load_sample_violations_best_effort]
  note object = inst [THEN conjunct2, THEN conjunct1, rule_format, OF refl]
  from inst [THEN conjunct1]
  show "load_manifest True sample_env (Inl RequestException) (JDict ?doc) =
     Inl (ManifestValidationError
         \<lparr>messages = ?msgs, data = Some (JDict ?doc), valid_data = Some (JDict [])\<rparr>
         (JDict ?doc))" .
  have "(''name'', Str True [Length 1 100]) \<in> set (ManifestSchema_fields sample_env)"
    by (simp add: ManifestSchema_fields_def)
  moreover have "snd (call_and_store (Str True [Length 1 100] (map_of ?doc ''name''))) =
                   Some (Msgs [''Missing data for required field.''])"
    by (simp add: Str_def required_missing)
  ultimately show "lookup ?msgs (Key ''name'') = Some (Msgs [''Missing data for required field.''])"
    by (rule object [THEN conjunct1, rule_format])
  have "validate_version sample_env ''abc'' =
          Some ''Invalid semantic versioning format, see https://semver.org/''"
    by (simp add: validate_version_def)
  with object [THEN conjunct2, THEN conjunct1, rule_format, of "''abc''"
      "''Invalid semantic versioning format, see https://semver.org/''"]
  show "lookup ?msgs (Key ''version'') =
       Some (Msgs [''Invalid semantic versioning format, see https://semver.org/''])"
    by simp
  have "validate_license (Inl RequestException) ''MIT'' =
          Some ''Could not load SPDX licenses for validation''"
    by (simp add: validate_license_def)
  with object [THEN conjunct2, THEN conjunct2, rule_format, of "''MIT''"
      "''Could not load SPDX licenses for validation''"]
  show "lookup ?msgs (Key ''license'') = Some (Msgs [''Could not load SPDX licenses for validation''])"
    by simp
qed

text \<open>
  C4. When loading the registry fails with a \<open>RequestException\<close>, a license that passed
  its field checks is reported, in best-effort and in strict mode alike, with the message
  "Could not load SPDX licenses for validation" and is left out of the valid data. That
  message is distinct from the invalid-identifier one: with the registry loaded, no
  document ever gets it under \<open>license\<close> (the messages of \<open>deserialize_and_validate\<close>
  are the ones either mode reports).
\<close>

theorem license_registry_unavailable:
  assumes "map_of kvs ''license'' = Some (JStr s)" and "1 \<le> length s" and "length s \<le> 255"
  shows "(\<exists>valid errs.
           load_manifest False e (Inl err) (JDict kvs) = Inr (Some (JDict valid), Some (Sub errs))
           \<and> load_manifest True e (Inl err) (JDict kvs) =
               Inl (ManifestValidationError
                     \<lparr>messages = Sub errs, data = Some (JDict kvs), valid_data = Some (JDict valid)\<rparr>
                     (JDict kvs))
           \<and> map_of errs (Key ''license'') =
               Some (Msgs [''Could not load SPDX licenses for validation''])
           \<and> map_of valid ''license'' = None)
         \<and> (\<forall>spdx kvs'. map_of (snd (deserialize_and_validate e (Inr spdx) (JDict kvs'))) (Key ''license'')
                \<noteq> Some (Msgs [''Could not load SPDX licenses for validation'']))"
proof (intro conjI)
  let ?fs = "ManifestSchema_fields e"
  let ?des = "deserialize_fields ?fs kvs"
  let ?r1 = "invoke_field_validator ''license'' (validate_license (Inl err)) ?des"
  obtain valid errs where v: "deserialize_and_validate e (Inl err) (JDict kvs) = (valid, errs)"
    by (cases "deserialize_and_validate e (Inl err) (JDict kvs)")
  have dv: "map_of (fst ?des) ''license'' = Some (JStr s)"
    using assms by (simp add: deserialize_fields_value ManifestSchema_fields_distinct
        license_field Str_accepts)
  have de: "map_of (snd ?des) (Key ''license'') = None"
    using assms by (simp add: deserialize_fields_error ManifestSchema_fields_distinct
        license_field Str_accepts)
  have r1e: "map_of (snd ?r1) (Key ''license'') =
               Some (Msgs [''Could not load SPDX licenses for validation''])"
    using dv de
    by (simp add: invoke_field_validator_errors validate_license_def map_add_def)
  have r1v: "map_of (fst ?r1) ''license'' = None"
    using dv by (simp add: invoke_field_validator_value validate_license_def)
  have ve: "valid = fst (invoke_field_validator ''version'' (validate_version e) ?r1)"
    "errs = snd (invoke_field_validator ''version'' (validate_version e) ?r1)"
    using v by (simp_all add: deserialize_and_validate_def deserialize_one_dict)
  have e1: "map_of errs (Key ''license'') =
              Some (Msgs [''Could not load SPDX licenses for validation''])"
    using invoke_field_validator_error_kept [OF r1e] ve(2) by simp
  have v1: "map_of valid ''license'' = None"
    using r1v ve(1) by (simp add: invoke_field_validator_value)
  from e1 have ne: "errs \<noteq> []" by auto
  from load_manifest_errors [OF v ne] e1 v1
  show "\<exists>valid errs.
           load_manifest False e (Inl err) (JDict kvs) = Inr (Some (JDict valid), Some (Sub errs))
           \<and> load_manifest True e (Inl err) (JDict kvs) =
               Inl (ManifestValidationError
                     \<lparr>messages = Sub errs, data = Some (JDict kvs), valid_data = Some (JDict valid)\<rparr>
                     (JDict kvs))
           \<and> map_of errs (Key ''license'') =
               Some (Msgs [''Could not load SPDX licenses for validation''])
           \<and> map_of valid ''license'' = None"
    by blast
  show "\<forall>spdx kvs'. map_of (snd (deserialize_and_validate e (Inr spdx) (JDict kvs'))) (Key ''license'')
           \<noteq> Some (Msgs [''Could not load SPDX licenses for validation''])"
  proof (intro allI)
    fix spdx kvs'
    let ?d = "deserialize_fields ?fs kvs'"
    have a: "map_of (snd ?d) (Key ''license'') \<noteq>
               Some (Msgs [''Could not load SPDX licenses for validation''])"
      using license_field_message [of "map_of kvs' ''license''"]
      by (simp add: deserialize_fields_error ManifestSchema_fields_distinct license_field)
    have "map_of (snd (invoke_field_validator ''license'' (validate_license (Inr spdx)) ?d))
            (Key ''license'') \<noteq> Some (Msgs [''Could not load SPDX licenses for validation''])"
      using a
      by (auto simp: invoke_field_validator_errors validate_license_def map_add_def
          split: option.splits json.splits if_splits)
    then show "map_of (snd (deserialize_and_validate e (Inr spdx) (JDict kvs'))) (Key ''license'')
           \<noteq> Some (Msgs [''Could not load SPDX licenses for validation''])"
      by (simp add: deserialize_and_validate_def deserialize_one_dict
          invoke_field_validator_error_other)
  qed
qed

theorem license_registry_unavailable_witness:
  "\<exists>valid errs.
     load_manifest False sample_env (Inl RequestException) (JDict [(''license'', JStr ''MIT'')])
       = Inr (Some (JDict valid), Some (Sub errs))
     \<and> load_manifest True sample_env (Inl RequestException) (JDict [(''license'', JStr ''MIT'')]) =
         Inl (ManifestValidationError
               \<lparr>messages = Sub errs, data = Some (JDict [(''license'', JStr ''MIT'')]),
                valid_data = Some (JDict valid)\<rparr>
               (JDict [(''license'', JStr ''MIT'')]))
     \<and> map_of errs (Key ''license'') = Some (Msgs [''Could not load SPDX licenses for validation''])
     \<and> map_of valid ''license'' = None"
  using license_registry_unavailable [of "[(''license'', JStr ''MIT'')]" "''MIT''" sample_env
      RequestException]
  by simp

section \<open>Unknown keys and declared fields\<close>




section \<open>Sequences of objects\<close>

text \<open>
  C3. In best-effort mode, when some element of \<open>authors\<close> or of \<open>examples\<close>
  fails its nested validation, the list in the repaired document consists of exactly the
  elements that pass, each as given in the input and in the input order (the field is
  absent when none passes): a failing element is dropped as a whole, nothing of it is
  kept. The messages under the field record, at the index of each failing element, the
  messages of that element, and nothing at the index of a passing one. For
  \<open>authors = [{name: "A"}, {email: "bad"}]\<close> the repaired list is
  \<open>[{name: "A"}]\<close> and the messages under \<open>authors\<close> have the one index 1,
  with the missing \<open>name\<close>.
\<close>

theorem broken_element_dropped:
  "((k, fs) = (''authors'', AuthorSchema_fields e) \<or> (k, fs) = (''examples'', ExampleSchema_fields) \<longrightarrow>
    map_of kvs k = Some (JList items) \<longrightarrow>
    (\<exists>d \<in> set items. snd (deserialize_one RAISE fs d) \<noteq> []) \<longrightarrow>
    (\<exists>valid errs sub.
        load_manifest False e loaded (JDict kvs) = Inr (Some (JDict valid), Some (Sub errs))
        \<and> map_of valid k =
            (case filter (\<lambda>d. snd (deserialize_one RAISE fs d) = []) items of
               [] \<Rightarrow> None | y # ys \<Rightarrow> Some (JList (y # ys)))
        \<and> map_of errs (Key k) = Some (Sub sub)
        \<and> (\<forall>i < length items.
              map_of sub (Index i) =
                (if snd (deserialize_one RAISE fs (items ! i)) = [] then None
                 else Some (Sub (snd (deserialize_one RAISE fs (items ! i))))))))
   \<and> (map_of doc ''authors'' =
         Some (JList [JDict [(''name'', JStr ''A'')], JDict [(''email'', JStr ''bad'')]]) \<longrightarrow>
       (\<exists>valid errs sub.
           load_manifest False e loaded (JDict doc) = Inr (Some (JDict valid), Some (Sub errs))
           \<and> map_of valid ''authors'' = Some (JList [JDict [(''name'', JStr ''A'')]])
           \<and> map_of errs (Key ''authors'') = Some (Sub [(Index 1, Sub sub)])
           \<and> map_of sub (Key ''name'') = Some (Msgs [''Missing data for required field.''])))"
proof (intro conjI impI)
  assume a: "(k, fs) = (''authors'', AuthorSchema_fields e) \<or> (k, fs) = (''examples'', ExampleSchema_fields)"
    "map_of kvs k = Some (JList items)"
    "\<exists>d \<in> set items. snd (deserialize_one RAISE fs d) \<noteq> []"
  have "\<forall>i < length items.
          map_of (snd (many_loop RAISE fs 0 items)) (Index i) =
            (if snd (deserialize_one RAISE fs (items ! i)) = [] then None
             else Some (Sub (snd (deserialize_one RAISE fs (items ! i)))))"
    by (simp add: many_loop_error)
  with nested_many_broken [OF a, of loaded]
  show "\<exists>valid errs sub.
        load_manifest False e loaded (JDict kvs) = Inr (Some (JDict valid), Some (Sub errs))
        \<and> map_of valid k =
            (case filter (\<lambda>d. snd (deserialize_one RAISE fs d) = []) items of
               [] \<Rightarrow> None | y # ys \<Rightarrow> Some (JList (y # ys)))
        \<and> map_of errs (Key k) = Some (Sub sub)
        \<and> (\<forall>i < length items.
              map_of sub (Index i) =
                (if snd (deserialize_one RAISE fs (items ! i)) = [] then None
                 else Some (Sub (snd (deserialize_one RAISE fs (items ! i))))))"
    by blast
next
  assume d: "map_of doc ''authors'' =
         Some (JList [JDict [(''name'', JStr ''A'')], JDict [(''email'', JStr ''bad'')]])"
  obtain v rest where bad:
    "deserialize_one RAISE (AuthorSchema_fields e) (JDict [(''email'', JStr ''bad'')]) =
       (v, (Key ''name'', Msgs [''Missing data for required field.'']) # rest)"
    using author_unnamed by blast
  have "\<exists>d \<in> set [JDict [(''name'', JStr ''A'')], JDict [(''email'', JStr ''bad'')]].
          snd (deserialize_one RAISE (AuthorSchema_fields e) d) \<noteq> []"
    by (simp add: bad)
  from nested_many_broken [OF disjI1 [OF refl] d this, of loaded]
  have "load_manifest False e loaded (JDict doc) =
           Inr (Some (JDict (fst (deserialize_and_validate e loaded (JDict doc)))),
                Some (Sub (snd (deserialize_and_validate e loaded (JDict doc)))))"
    and "map_of (fst (deserialize_and_validate e loaded (JDict doc))) ''authors'' =
           Some (JList [JDict [(''name'', JStr ''A'')]])"
    and "map_of (snd (deserialize_and_validate e loaded (JDict doc))) (Key ''authors'') =
           Some (Sub [(Index 1, Sub ((Key ''name'', Msgs [''Missing data for required field.'']) # rest))])"
    by (simp_all add: author_named bad)
  then show "\<exists>valid errs sub.
           load_manifest False e loaded (JDict doc) = Inr (Some (JDict valid), Some (Sub errs))
           \<and> map_of valid ''authors'' = Some (JList [JDict [(''name'', JStr ''A'')]])
           \<and> map_of errs (Key ''authors'') = Some (Sub [(Index 1, Sub sub)])
           \<and> map_of sub (Key ''name'') = Some (Msgs [''Missing data for required field.''])"
    by (intro exI [of _ "fst (deserialize_and_validate e loaded (JDict doc))"]
              exI [of _ "snd (deserialize_and_validate e loaded (JDict doc))"]
              exI [of _ "(Key ''name'', Msgs [''Missing data for required field.'']) # rest"])
       simp
qed

theorem broken_element_dropped_witness:
  "(\<exists>valid errs sub.
      load_manifest False sample_env (Inr sample_spdx)
        (JDict [(''name'', JStr ''x''), (''version'', JStr ''1.2''),
                (''authors'', JList [JDict [(''name'', JStr ''A'')],
                                     JDict [(''email'', JStr ''bad'')]])]) =
        Inr (Some (JDict valid), Some (Sub errs))
      \<and> map_of valid ''authors'' = Some (JList [JDict [(''name'', JStr ''A'')]])
      \<and> map_of errs (Key ''authors'') = Some (Sub sub)
      \<and> map_of sub (Index 0) = None
      \<and> map_of sub (Index 1) =
          Some (Sub [(Key ''name'', Msgs [''Missing data for required field.'']),
                     (Key ''email'', Msgs [''Not a valid email address.''])]))
   \<and> (\<exists>valid errs sub.
        load_manifest False sample_env (Inr sample_spdx)
          (JDict [(''name'', JStr ''x''), (''version'', JStr ''1.2''),
                  (''authors'', JList [JDict [(''name'', JStr ''A'')],
                                       JDict [(''email'', JStr ''bad'')]])]) =
          Inr (Some (JDict valid), Some (Sub errs))
        \<and> map_of valid ''authors'' = Some (JList [JDict [(''name'', JStr ''A'')]])
        \<and> map_of errs (Key ''authors'') = Some (Sub [(Index 1, Sub sub)])
        \<and> map_of sub (Key ''name'') = Some (Msgs [''Missing data for required field.'']))"
proof (intro conjI)
  let ?items = "[JDict [(''name'', JStr ''A'')], JDict [(''email'', JStr ''bad'')]]"
  let ?doc = "[(''name'', JStr ''x''), (''version'', JStr ''1.2''), (''authors'', JList ?items)]"
  note inst = broken_element_dropped [of "''authors''" "AuthorSchema_fields sample_env"
      sample_env ?doc ?items "Inr sample_spdx" ?doc]
  have "\<exists>d \<in> set ?items. snd (deserialize_one RAISE (AuthorSchema_fields sample_env) d) \<noteq> []"
    by (simp add: author_unnamed_sample)
  with inst [THEN conjunct1]
  obtain valid errs sub where
    l: "load_manifest False sample_env (Inr sample_spdx) (JDict ?doc) =
          Inr (Some (JDict valid), Some (Sub errs))"
    and v: "map_of valid ''authors'' =
              (case filter (\<lambda>d. snd (deserialize_one RAISE (AuthorSchema_fields sample_env) d) = [])
                      ?items of
                 [] \<Rightarrow> None | y # ys \<Rightarrow> Some (JList (y # ys)))"
    and e: "map_of errs (Key ''authors'') = Some (Sub sub)"
    and s: "\<forall>i < length ?items.
              map_of sub (Index i) =
                (if snd (deserialize_one RAISE (AuthorSchema_fields sample_env) (?items ! i)) = []
                 then None
                 else Some (Sub (snd (deserialize_one RAISE (AuthorSchema_fields sample_env)
                                        (?items ! i)))))"
    by auto
  from v have v': "map_of valid ''authors'' = Some (JList [JDict [(''name'', JStr ''A'')]])"
    by (simp add: author_named author_unnamed_sample)
  from s [rule_format, of 0] have s0: "map_of sub (Index 0) = None"
    by (simp add: author_named)
  from s [rule_format, of 1]
  have s1: "map_of sub (Index 1) =
          Some (Sub [(Key ''name'', Msgs [''Missing data for required field.'']),
                     (Key ''email'', Msgs [''Not a valid email address.''])])"
    by (simp add: author_unnamed_sample)
  from l v' e s0 s1
  show "\<exists>valid errs sub.
      load_manifest False sample_env (Inr sample_spdx) (JDict ?doc) =
        Inr (Some (JDict valid), Some (Sub errs))
      \<and> map_of valid ''authors'' = Some (JList [JDict [(''name'', JStr ''A'')]])
      \<and> map_of errs (Key ''authors'') = Some (Sub sub)
      \<and> map_of sub (Index 0) = None
      \<and> map_of sub (Index 1) =
          Some (Sub [(Key ''name'', Msgs [''Missing data for required field.'']),
                     (Key ''email'', Msgs [''Not a valid email address.''])])"
    by blast
  from inst [THEN conjunct2]
  show "\<exists>valid errs sub.
        load_manifest False sample_env (Inr sample_spdx) (JDict ?doc) =
          Inr (Some (JDict valid), Some (Sub errs))
        \<and> map_of valid ''authors'' = Some (JList [JDict [(''name'', JStr ''A'')]])
        \<and> map_of errs (Key ''authors'') = Some (Sub [(Index 1, Sub sub)])
        \<and> map_of sub (Key ''name'') = Some (Msgs [''Missing data for required field.''])"
    by simp
qed

section \<open>List-valued fields\<close>

text \<open>
  C2, as stated, fails: the output of a list-valued field is not always a subsequence of
  the input. When every element of \<open>authors\<close> is valid, the output holds the
  deserialised elements, and an author's \<open>maintainer\<close> flag given as \<open>"yes"\<close>
  comes out as the boolean \<open>true\<close>: the output element is not an element of the
  input.
\<close>

theorem normalised_element_counterexample:
  "load_manifest False sample_env (Inr sample_spdx)
     (JDict [(''name'', JStr ''x''), (''version'', JStr ''1.2''),
             (''authors'', JList [JDict [(''name'', JStr ''A''), (''maintainer'', JStr ''yes'')]])]) =
   Inr (Some (JDict [(''name'', JStr ''x''), (''version'', JStr ''1.2''),
             (''authors'', JList [JDict [(''name'', JStr ''A''), (''maintainer'', JBool True)]])]),
        None)
   \<and> \<not> subseq [JDict [(''name'', JStr ''A''), (''maintainer'', JBool True)]]
               [JDict [(''name'', JStr ''A''), (''maintainer'', JStr ''yes'')]]"
proof (intro conjI)
  show "load_manifest False sample_env (Inr sample_spdx)
     (JDict [(''name'', JStr ''x''), (''version'', JStr ''1.2''),
             (''authors'', JList [JDict [(''name'', JStr ''A''), (''maintainer'', JStr ''yes'')]])]) =
   Inr (Some (JDict [(''name'', JStr ''x''), (''version'', JStr ''1.2''),
             (''authors'', JList [JDict [(''name'', JStr ''A''), (''maintainer'', JBool True)]])]),
        None)"
    by code_simp
  show "\<not> subseq [JDict [(''name'', JStr ''A''), (''maintainer'', JBool True)]]
               [JDict [(''name'', JStr ''A''), (''maintainer'', JStr ''yes'')]]"
    by simp
qed

text \<open>
  C2, amended. Best-effort mode reports the document of \<open>deserialize_and_validate\<close>.
  For the lists of strings \<open>keywords\<close>, \<open>platforms\<close>, \<open>frameworks\<close> and
  \<open>system\<close>, a list in the output comes from a list in the input and is a subsequence
  of it: it consists of the items that the inner string field accepts, in their order, so
  no item is added and the invalid ones are dropped. For \<open>authors\<close> and
  \<open>examples\<close> the same holds when some element fails its nested validation: the output
  consists of the elements that pass, as given and in their order. When no element fails,
  the output has, element by element, the deserialised form of the input.
\<close>

theorem list_fields_subsequence:
  "load_manifest False e loaded (JDict kvs) =
     Inr (Some (JDict (fst (deserialize_and_validate e loaded (JDict kvs)))),
          if snd (deserialize_and_validate e loaded (JDict kvs)) = [] then None
          else Some (Sub (snd (deserialize_and_validate e loaded (JDict kvs)))))
   \<and> ((k, vs) = (''keywords'',
              [Length 1 50, Regexp re_keyword ''Only [a-z0-9-+. ] chars are allowed''])
        \<or> (k, vs) = (''platforms'',
              [Length 1 50, Regexp re_platform ''Only [a-z0-9-_*] chars are allowed''])
        \<or> (k, vs) = (''frameworks'',
              [Length 1 50, Regexp re_platform ''Only [a-z0-9-_*] chars are allowed''])
        \<or> (k, vs) = (''system'',
              [Length 1 50, Regexp re_system ''Only [a-z0-9-_] chars are allowed'']) \<longrightarrow>
       map_of (fst (deserialize_and_validate e loaded (JDict kvs))) k = Some v \<longrightarrow>
       (\<exists>items ys. map_of kvs k = Some (JList items) \<and> v = JList ys
           \<and> ys = filter (\<lambda>x. \<not> isl (Str False vs (Some x))) items
           \<and> subseq ys items))
   \<and> ((k', fs) = (''authors'', AuthorSchema_fields e)
        \<or> (k', fs) = (''examples'', ExampleSchema_fields) \<longrightarrow>
       map_of (fst (deserialize_and_validate e loaded (JDict kvs))) k' = Some v' \<longrightarrow>
       (\<exists>items ys. map_of kvs k' = Some (JList items) \<and> v' = JList ys
           \<and> (if \<forall>d \<in> set items. snd (deserialize_one RAISE fs d) = []
               then ys = map (\<lambda>d. JDict (fst (deserialize_one RAISE fs d))) items
               else ys = filter (\<lambda>d. snd (deserialize_one RAISE fs d) = []) items
                    \<and> subseq ys items)))"
proof (intro conjI impI)
  show "load_manifest False e loaded (JDict kvs) =
     Inr (Some (JDict (fst (deserialize_and_validate e loaded (JDict kvs)))),
          if snd (deserialize_and_validate e loaded (JDict kvs)) = [] then None
          else Some (Sub (snd (deserialize_and_validate e loaded (JDict kvs)))))"
    by (rule load_manifest_best_effort)
next
  assume "(k, vs) = (''keywords'',
              [Length 1 50, Regexp re_keyword ''Only [a-z0-9-+. ] chars are allowed''])
        \<or> (k, vs) = (''platforms'',
              [Length 1 50, Regexp re_platform ''Only [a-z0-9-_*] chars are allowed''])
        \<or> (k, vs) = (''frameworks'',
              [Length 1 50, Regexp re_platform ''Only [a-z0-9-_*] chars are allowed''])
        \<or> (k, vs) = (''system'',
              [Length 1 50, Regexp re_system ''Only [a-z0-9-_] chars are allowed''])"
    and "map_of (fst (deserialize_and_validate e loaded (JDict kvs))) k = Some v"
  from string_list_value [OF string_list_field [OF this(1)] this(2)]
  show "\<exists>items ys. map_of kvs k = Some (JList items) \<and> v = JList ys
           \<and> ys = filter (\<lambda>x. \<not> isl (Str False vs (Some x))) items
           \<and> subseq ys items"
    by auto
next
  assume "(k', fs) = (''authors'', AuthorSchema_fields e)
        \<or> (k', fs) = (''examples'', ExampleSchema_fields)"
    and "map_of (fst (deserialize_and_validate e loaded (JDict kvs))) k' = Some v'"
  from nested_many_value [OF this]
  show "\<exists>items ys. map_of kvs k' = Some (JList items) \<and> v' = JList ys
           \<and> (if \<forall>d \<in> set items. snd (deserialize_one RAISE fs d) = []
               then ys = map (\<lambda>d. JDict (fst (deserialize_one RAISE fs d))) items
               else ys = filter (\<lambda>d. snd (deserialize_one RAISE fs d) = []) items
                    \<and> subseq ys items)"
    by auto
qed

theorem list_fields_subsequence_witness:
  "map_of (fst (deserialize_and_validate sample_env (Inr sample_spdx)
      (JDict [(''name'', JStr ''x''), (''version'', JStr ''1.2''),
              (''keywords'', JList [JStr ''usb'', JStr ''USB'', JInt 3, JStr ''i2c''])])))
     ''keywords'' = Some (JList [JStr ''usb'', JStr ''i2c''])
   \<and> filter (\<lambda>x. \<not> isl (Str False
                 [Length 1 50, Regexp re_keyword ''Only [a-z0-9-+. ] chars are allowed'']
                 (Some x)))
        [JStr ''usb'', JStr ''USB'', JInt 3, JStr ''i2c''] = [JStr ''usb'', JStr ''i2c'']
   \<and> subseq [JStr ''usb'', JStr ''i2c''] [JStr ''usb'', JStr ''USB'', JInt 3, JStr ''i2c'']"
proof -
  let ?doc = "[(''name'', JStr ''x''), (''version'', JStr ''1.2''),
              (''keywords'', JList [JStr ''usb'', JStr ''USB'', JInt 3, JStr ''i2c''])]"
  have v: "map_of (fst (deserialize_and_validate sample_env (Inr sample_spdx) (JDict ?doc)))
             ''keywords'' = Some (JList [JStr ''usb'', JStr ''i2c''])"
    by (simp add: validated_sample_keywords)
  from list_fields_subsequence [of sample_env "Inr sample_spdx" ?doc "''keywords''"
      "[Length 1 50, Regexp re_keyword ''Only [a-z0-9-+. ] chars are allowed'']"
      "JList [JStr ''usb'', JStr ''i2c'']", THEN conjunct2, THEN conjunct1] v
  have "[JStr ''usb'', JStr ''i2c''] =
          filter (\<lambda>x. \<not> isl (Str False
                 [Length 1 50, Regexp re_keyword ''Only [a-z0-9-+. ] chars are allowed'']
                 (Some x)))
            [JStr ''usb'', JStr ''USB'', JInt 3, JStr ''i2c'']
        \<and> subseq [JStr ''usb'', JStr ''i2c''] [JStr ''usb'', JStr ''USB'', JInt 3, JStr ''i2c'']"
    by simp
  with v show ?thesis by simp
qed

end
